theory Spec2Isabelle
  imports Main
begin

section \<open>The host page: elements, document, timers\<close>

text \<open>
  The controllers of \<^verbatim>\<open>js/diagrams.js\<close> manipulate elements of the host page through
  the DOM interface of the browser.  An element is an object with identity; the model
  names it by a reference and keeps the mutable part of every element in the document
  record, so that two references to one element alias as they do in the browser.
\<close>

type_synonym elem = nat

datatype jsval = Str string | Num nat | Translate int int

text \<open>
  \<open>Str\<close> and \<open>Num\<close> are the strings and the (small, non-negative, integral) numbers the
  source assigns.  \<open>Translate x y\<close> stands for the template string
  \<^verbatim>\<open>translate(${x}, ${y})\<close> of \<^verbatim>\<open>onNodeHover\<close>; its coordinates are kept as numbers
  rather than printed.
\<close>

record element =
  tagName :: string
  classList :: "string list"
  attributes :: "string \<Rightarrow> jsval option"
  style :: "string \<Rightarrow> jsval"
  textContent :: string

record bbox =
  bbox_x :: int
  bbox_y :: int
  bbox_width :: int
  bbox_height :: int

datatype selector = ByClass string | ByTag string

text \<open>The arrow functions the controllers register as event listeners.\<close>

datatype listener =
    FlowchartClick nat
  | SequenceEnter nat
  | SequenceLeave nat
  | InteractiveClick elem
  | InteractiveEnter elem
  | InteractiveLeave elem
  | StateClick elem

text \<open>The payload (\<^verbatim>\<open>detail\<close>) of the custom events the controllers dispatch.\<close>

datatype detail =
    NodeSelected elem "jsval option"
  | StateChanged "jsval option"

record document =
  elements :: "elem \<Rightarrow> element"
  byId :: "string \<Rightarrow> elem option"
  descendants :: "elem \<Rightarrow> elem list"
  nextElementSibling :: "elem \<Rightarrow> elem option"
  bboxes :: "elem \<Rightarrow> bbox"
  created :: nat
  listeners :: "(elem \<times> string \<times> listener) list"
  dispatched :: "(elem \<times> string \<times> detail) list"
  console :: "string list"

text \<open>
  \<open>descendants d e\<close> lists the element descendants of \<open>e\<close> in document order, as the
  browser walks them for \<^verbatim>\<open>querySelectorAll\<close>.  \<open>created d\<close> is the next unused
  reference, for \<^verbatim>\<open>createElementNS\<close>.  \<open>listeners\<close>, \<open>dispatched\<close> and \<open>console\<close>
  record, in order, the listeners registered, the events dispatched and the lines logged.
  What the host page does in its own listeners for a dispatched event is not part of the
  program: \<^verbatim>\<open>dispatchEvent\<close> records the event and returns (an exception in a listener
  does not reach the caller of \<^verbatim>\<open>dispatchEvent\<close>).
\<close>

datatype error = TypeError

text \<open>
  A method either returns or throws; a throw keeps the state reached at the moment
  of the throw, since the mutations before it are not undone.
\<close>

datatype 'a result = Return 'a | Throw error 'a

subsection \<open>DOM operations\<close>

definition getElementById :: "document \<Rightarrow> string \<Rightarrow> elem option" where
  "getElementById d i = byId d i"

fun matches :: "document \<Rightarrow> selector \<Rightarrow> elem \<Rightarrow> bool" where
  "matches d (ByClass c) e = (c \<in> set (classList (elements d e)))"
| "matches d (ByTag t) e = (tagName (elements d e) = t)"

definition querySelectorAll :: "document \<Rightarrow> elem \<Rightarrow> selector \<Rightarrow> elem list" where
  "querySelectorAll d e sel = filter (matches d sel) (descendants d e)"

definition querySelector :: "document \<Rightarrow> elem \<Rightarrow> selector \<Rightarrow> elem option" where
  "querySelector d e sel = find (matches d sel) (descendants d e)"

definition upd_elem :: "elem \<Rightarrow> (element \<Rightarrow> element) \<Rightarrow> document \<Rightarrow> document" where
  "upd_elem e f d = d\<lparr>elements := (elements d)(e := f (elements d e))\<rparr>"

definition classList_add :: "document \<Rightarrow> elem \<Rightarrow> string \<Rightarrow> document" where
  "classList_add d e c =
     upd_elem e (\<lambda>x. x\<lparr>classList := (if c \<in> set (classList x) then classList x
                                      else classList x @ [c])\<rparr>) d"

definition classList_remove :: "document \<Rightarrow> elem \<Rightarrow> string \<Rightarrow> document" where
  "classList_remove d e c = upd_elem e (\<lambda>x. x\<lparr>classList := removeAll c (classList x)\<rparr>) d"

definition classList_contains :: "document \<Rightarrow> elem \<Rightarrow> string \<Rightarrow> bool" where
  "classList_contains d e c = (c \<in> set (classList (elements d e)))"

definition getAttribute :: "document \<Rightarrow> elem \<Rightarrow> string \<Rightarrow> jsval option" where
  "getAttribute d e k = attributes (elements d e) k"

text \<open>
  The \<^verbatim>\<open>class\<close> attribute and \<^verbatim>\<open>classList\<close> are one piece of state in the browser;
  the model keeps it in \<open>classList\<close>, and \<^verbatim>\<open>setAttribute('class', v)\<close> writes the
  tokens of \<open>v\<close> there.  The source never reads the \<^verbatim>\<open>class\<close> attribute back.
\<close>

fun split_spaces :: "string \<Rightarrow> string list" where
  "split_spaces [] = [[]]"
| "split_spaces (c # cs) =
     (if c = CHR '' '' then [] # split_spaces cs
      else (case split_spaces cs of w # ws \<Rightarrow> (c # w) # ws | [] \<Rightarrow> [[c]]))"

definition class_tokens :: "jsval \<Rightarrow> string list" where
  "class_tokens v =
     (case v of Str s \<Rightarrow> remdups (filter (\<lambda>w. w \<noteq> []) (split_spaces s)) | _ \<Rightarrow> [])"

definition setAttribute :: "document \<Rightarrow> elem \<Rightarrow> string \<Rightarrow> jsval \<Rightarrow> document" where
  "setAttribute d e k v =
     (if k = ''class'' then upd_elem e (\<lambda>x. x\<lparr>classList := class_tokens v\<rparr>) d
      else upd_elem e (\<lambda>x. x\<lparr>attributes := (attributes x)(k := Some v)\<rparr>) d)"

definition set_style :: "document \<Rightarrow> elem \<Rightarrow> string \<Rightarrow> jsval \<Rightarrow> document" where
  "set_style d e k v = upd_elem e (\<lambda>x. x\<lparr>style := (style x)(k := v)\<rparr>) d"

definition get_style :: "document \<Rightarrow> elem \<Rightarrow> string \<Rightarrow> jsval" where
  "get_style d e k = style (elements d e) k"

definition set_textContent :: "document \<Rightarrow> elem \<Rightarrow> string \<Rightarrow> document" where
  "set_textContent d e s = upd_elem e (\<lambda>x. x\<lparr>textContent := s\<rparr>) d"

definition addEventListener :: "document \<Rightarrow> elem \<Rightarrow> string \<Rightarrow> listener \<Rightarrow> document" where
  "addEventListener d e ty l = d\<lparr>listeners := listeners d @ [(e, ty, l)]\<rparr>"

definition dispatchEvent :: "document \<Rightarrow> elem \<Rightarrow> string \<Rightarrow> detail \<Rightarrow> document" where
  "dispatchEvent d e nm x = d\<lparr>dispatched := dispatched d @ [(e, nm, x)]\<rparr>"

definition console_log :: "document \<Rightarrow> string \<Rightarrow> document" where
  "console_log d s = d\<lparr>console := console d @ [s]\<rparr>"

text \<open>\<^verbatim>\<open>xs.forEach(x => f(x))\<close> over a list of elements, threading the document.\<close>

definition forEach :: "elem list \<Rightarrow> (elem \<Rightarrow> document \<Rightarrow> document) \<Rightarrow> document \<Rightarrow> document" where
  "forEach xs f d = fold f xs d"

text \<open>\<^verbatim>\<open>xs[i]\<close>: \<^verbatim>\<open>undefined\<close> (here \<open>None\<close>) out of range.\<close>

definition at :: "'a list \<Rightarrow> nat \<Rightarrow> 'a option" where
  "at xs i = (if i < length xs then Some (xs ! i) else None)"

subsection \<open>Timers and animation frames\<close>

text \<open>
  A callback handed to \<^verbatim>\<open>setInterval\<close>, \<^verbatim>\<open>setTimeout\<close> or
  \<^verbatim>\<open>requestAnimationFrame\<close> is a closure over a local variable of the method that
  created it (\<^verbatim>\<open>step\<close>, \<^verbatim>\<open>index\<close>, \<^verbatim>\<open>offset\<close>).  Each closure has a single
  pending registration at a time and nothing else writes its variable, so the model
  stores the variable's current value in the registration.
\<close>

datatype callback =
    FlowchartStep nat
  | SequenceStep nat
  | StatePlay "string list" nat nat
  | Animate nat

record timer =
  handle :: nat
  due :: nat
  period :: "nat option"
  callback :: callback

record scheduler =
  now :: nat
  timerHandles :: nat
  timers :: "timer list"
  frameHandles :: nat
  frames :: "(nat \<times> callback) list"

text \<open>
  Handles are positive integers, issued in increasing order.  \<open>period\<close> is \<open>Some p\<close>
  for an interval timer and \<open>None\<close> for a one-shot timeout.
\<close>

definition setInterval :: "scheduler \<Rightarrow> callback \<Rightarrow> nat \<Rightarrow> nat \<times> scheduler" where
  "setInterval s cb p =
     (let h = Suc (timerHandles s)
      in (h, s\<lparr>timerHandles := h,
               timers := timers s @ [\<lparr>handle = h, due = now s + p, period = Some p, callback = cb\<rparr>]\<rparr>))"

definition setTimeout :: "scheduler \<Rightarrow> callback \<Rightarrow> nat \<Rightarrow> nat \<times> scheduler" where
  "setTimeout s cb p =
     (let h = Suc (timerHandles s)
      in (h, s\<lparr>timerHandles := h,
               timers := timers s @ [\<lparr>handle = h, due = now s + p, period = None, callback = cb\<rparr>]\<rparr>))"

definition clearInterval :: "scheduler \<Rightarrow> nat \<Rightarrow> scheduler" where
  "clearInterval s h = s\<lparr>timers := filter (\<lambda>t. handle t \<noteq> h) (timers s)\<rparr>"

definition requestAnimationFrame :: "scheduler \<Rightarrow> callback \<Rightarrow> nat \<times> scheduler" where
  "requestAnimationFrame s cb =
     (let h = Suc (frameHandles s)
      in (h, s\<lparr>frameHandles := h, frames := frames s @ [(h, cb)]\<rparr>))"

definition cancelAnimationFrame :: "scheduler \<Rightarrow> nat \<Rightarrow> scheduler" where
  "cancelAnimationFrame s h = s\<lparr>frames := filter (\<lambda>f. fst f \<noteq> h) (frames s)\<rparr>"

text \<open>
  The host fires a timer: the clock moves to the timer's due time, and a one-shot
  timeout leaves the queue before its callback runs.  After the callback of an interval
  timer has run, the host stores the closure's variable and sets the next due time,
  unless the callback cleared the timer.
\<close>

definition begin_timer :: "timer \<Rightarrow> scheduler \<Rightarrow> scheduler" where
  "begin_timer t s =
     s\<lparr>now := max (now s) (due t),
       timers := (case period t of
                    None \<Rightarrow> filter (\<lambda>u. handle u \<noteq> handle t) (timers s)
                  | Some p \<Rightarrow> timers s)\<rparr>"

definition again :: "nat \<Rightarrow> callback \<Rightarrow> scheduler \<Rightarrow> scheduler" where
  "again h cb s =
     s\<lparr>timers := map (\<lambda>t. if handle t = h
                            then t\<lparr>due := now s + (case period t of Some p \<Rightarrow> p | None \<Rightarrow> 0),
                                   callback := cb\<rparr>
                            else t) (timers s)\<rparr>"


section \<open>FlowchartController\<close>

record FlowchartController =
  fc_svg :: "elem option"
  fc_nodes :: "elem list"
  fc_connections :: "elem list"
  fc_currentStep :: nat

definition Flowchart_setupAnimations :: "FlowchartController \<Rightarrow> document \<Rightarrow> document" where
  "Flowchart_setupAnimations c d =
     forEach (fc_connections c) (\<lambda>conn d. classList_add d conn ''signal-animated'') d"

definition Flowchart_init ::
  "FlowchartController \<Rightarrow> document \<Rightarrow> FlowchartController \<times> document" where
  "Flowchart_init c d =
     (case fc_svg c of
        None \<Rightarrow> (c, d)
      | Some svg \<Rightarrow>
          (let c1 = c\<lparr>fc_nodes := querySelectorAll d svg (ByClass ''flowchart-node'')\<rparr>;
               c2 = c1\<lparr>fc_connections := querySelectorAll d svg (ByClass ''flowchart-arrow'')\<rparr>;
               d1 = fold (\<lambda>(index, node) d.
                            set_style (addEventListener d node ''click'' (FlowchartClick index))
                              node ''cursor'' (Str ''pointer''))
                      (enumerate 0 (fc_nodes c2)) d
           in (c2, Flowchart_setupAnimations c2 d1)))"

definition Flowchart_new :: "string \<Rightarrow> document \<Rightarrow> FlowchartController \<times> document" where
  "Flowchart_new svgElementId d =
     Flowchart_init \<lparr>fc_svg = getElementById d svgElementId, fc_nodes = [],
                     fc_connections = [], fc_currentStep = 0\<rparr> d"

definition Flowchart_highlightStep ::
  "FlowchartController \<Rightarrow> document \<Rightarrow> nat \<Rightarrow> FlowchartController \<times> document" where
  "Flowchart_highlightStep c d index =
     (let d1 = forEach (fc_nodes c)
                 (\<lambda>node d. classList_remove (classList_remove d node ''selected'')
                              node ''node-highlighted'') d;
          d2 = (case at (fc_nodes c) index of
                  Some node \<Rightarrow>
                    classList_add (classList_add d1 node ''selected'') node ''node-highlighted''
                | None \<Rightarrow> d1)
      in (c\<lparr>fc_currentStep := index\<rparr>, d2))"

text \<open>\<^verbatim>\<open>console.log(prefix, label.textContent)\<close>: the model logs the label's text.\<close>

definition Flowchart_showNodeDetail ::
  "FlowchartController \<Rightarrow> document \<Rightarrow> nat \<Rightarrow> (FlowchartController \<times> document) result" where
  "Flowchart_showNodeDetail c d index =
     (case at (fc_nodes c) index of
        None \<Rightarrow> Throw TypeError (c, d)
      | Some node \<Rightarrow>
          (case querySelector d node (ByClass ''flowchart-label'') of
             Some label \<Rightarrow> Return (c, console_log d (textContent (elements d label)))
           | None \<Rightarrow> Return (c, d)))"

definition Flowchart_onNodeClick ::
  "FlowchartController \<Rightarrow> document \<Rightarrow> nat \<Rightarrow> (FlowchartController \<times> document) result" where
  "Flowchart_onNodeClick c d index =
     (let (c1, d1) = Flowchart_highlightStep c d index in Flowchart_showNodeDetail c1 d1 index)"

definition Flowchart_playAnimation ::
  "FlowchartController \<Rightarrow> document \<Rightarrow> scheduler \<Rightarrow> FlowchartController \<times> document \<times> scheduler" where
  "Flowchart_playAnimation c d s =
     (let (interval, s1) = setInterval s (FlowchartStep 0) 1000 in (c, d, s1))"

text \<open>
  The arrow function of \<^verbatim>\<open>playAnimation\<close>.  \<open>interval\<close> is the handle that
  \<^verbatim>\<open>setInterval\<close> returned, \<open>step\<close> the current value of the captured variable; the
  new value of \<open>step\<close> is returned with the state.
\<close>

definition Flowchart_step ::
  "nat \<Rightarrow> nat \<Rightarrow> FlowchartController \<Rightarrow> document \<Rightarrow> scheduler
     \<Rightarrow> nat \<times> FlowchartController \<times> document \<times> scheduler" where
  "Flowchart_step interval step c d s =
     (if step \<ge> length (fc_nodes c) then (step, c, d, clearInterval s interval)
      else (let (c1, d1) = Flowchart_highlightStep c d step in (Suc step, c1, d1, s)))"

definition Flowchart_fire ::
  "nat \<Rightarrow> FlowchartController \<Rightarrow> document \<Rightarrow> scheduler
     \<Rightarrow> FlowchartController \<times> document \<times> scheduler" where
  "Flowchart_fire h c d s =
     (case find (\<lambda>t. handle t = h) (timers s) of
        None \<Rightarrow> (c, d, s)
      | Some t \<Rightarrow>
          (case callback t of
             FlowchartStep step \<Rightarrow>
               (let (step1, c1, d1, s1) = Flowchart_step h step c d (begin_timer t s)
                in (c1, d1, again h (FlowchartStep step1) s1))
           | _ \<Rightarrow> (c, d, s)))"

definition Flowchart_reset ::
  "FlowchartController \<Rightarrow> document \<Rightarrow> FlowchartController \<times> document" where
  "Flowchart_reset c d =
     (c\<lparr>fc_currentStep := 0\<rparr>,
      forEach (fc_nodes c)
        (\<lambda>node d. classList_remove (classList_remove d node ''selected'')
                     node ''node-highlighted'') d)"

section \<open>SequenceController\<close>

record SequenceController =
  sq_svg :: "elem option"
  sq_messages :: "elem list"
  sq_actors :: "elem list"

definition Sequence_init ::
  "SequenceController \<Rightarrow> document \<Rightarrow> SequenceController \<times> document" where
  "Sequence_init c d =
     (case sq_svg c of
        None \<Rightarrow> (c, d)
      | Some svg \<Rightarrow>
          (let c1 = c\<lparr>sq_messages := querySelectorAll d svg (ByClass ''sequence-message'')\<rparr>;
               c2 = c1\<lparr>sq_actors := querySelectorAll d svg (ByClass ''sequence-actor'')\<rparr>;
               d1 = fold (\<lambda>(index, msg) d.
                            addEventListener
                              (addEventListener d msg ''mouseenter'' (SequenceEnter index))
                              msg ''mouseleave'' (SequenceLeave index))
                      (enumerate 0 (sq_messages c2)) d
           in (c2, d1)))"

definition Sequence_new :: "string \<Rightarrow> document \<Rightarrow> SequenceController \<times> document" where
  "Sequence_new svgElementId d =
     Sequence_init \<lparr>sq_svg = getElementById d svgElementId, sq_messages = [], sq_actors = []\<rparr> d"

definition Sequence_showMessageDetail ::
  "SequenceController \<Rightarrow> document \<Rightarrow> nat \<Rightarrow> (SequenceController \<times> document) result" where
  "Sequence_showMessageDetail c d index =
     (case at (sq_messages c) index of
        None \<Rightarrow> Throw TypeError (c, d)
      | Some msg \<Rightarrow>
          (case nextElementSibling d msg of
             Some label \<Rightarrow>
               (if classList_contains d label ''sequence-label''
                then Return (c, console_log d (textContent (elements d label)))
                else Return (c, d))
           | None \<Rightarrow> Return (c, d)))"

definition Sequence_highlightMessage ::
  "SequenceController \<Rightarrow> document \<Rightarrow> nat \<Rightarrow> (SequenceController \<times> document) result" where
  "Sequence_highlightMessage c d index =
     (let d1 = (case at (sq_messages c) index of
                  Some msg \<Rightarrow>
                    set_style (set_style d msg ''stroke'' (Str ''var(--accent-color)''))
                      msg ''strokeWidth'' (Str ''3'')
                | None \<Rightarrow> d)
      in Sequence_showMessageDetail c d1 index)"

definition Sequence_unhighlightMessage ::
  "SequenceController \<Rightarrow> document \<Rightarrow> nat \<Rightarrow> SequenceController \<times> document" where
  "Sequence_unhighlightMessage c d index =
     (case at (sq_messages c) index of
        Some msg \<Rightarrow> (c, set_style (set_style d msg ''stroke'' (Str [])) msg ''strokeWidth'' (Str []))
      | None \<Rightarrow> (c, d))"

definition Sequence_playSequence ::
  "SequenceController \<Rightarrow> document \<Rightarrow> scheduler \<Rightarrow> SequenceController \<times> document \<times> scheduler" where
  "Sequence_playSequence c d s =
     (let (interval, s1) = setInterval s (SequenceStep 0) 800 in (c, d, s1))"

text \<open>
  The arrow function of \<^verbatim>\<open>playSequence\<close>, with the handle \<open>interval\<close> and the current
  value of the captured \<open>index\<close>.
\<close>

definition Sequence_step ::
  "nat \<Rightarrow> nat \<Rightarrow> SequenceController \<Rightarrow> document \<Rightarrow> scheduler
     \<Rightarrow> nat \<times> SequenceController \<times> document \<times> scheduler" where
  "Sequence_step interval index c d s =
     (if index \<ge> length (sq_messages c) then (index, c, d, clearInterval s interval)
      else (let d1 = fold (\<lambda>(i, msg) d.
                             set_style d msg ''opacity'' (if i = index then Str ''1'' else Str ''0.3''))
                       (enumerate 0 (sq_messages c)) d
            in (Suc index, c, d1, s)))"

definition Sequence_fire ::
  "nat \<Rightarrow> SequenceController \<Rightarrow> document \<Rightarrow> scheduler
     \<Rightarrow> SequenceController \<times> document \<times> scheduler" where
  "Sequence_fire h c d s =
     (case find (\<lambda>t. handle t = h) (timers s) of
        None \<Rightarrow> (c, d, s)
      | Some t \<Rightarrow>
          (case callback t of
             SequenceStep index \<Rightarrow>
               (let (index1, c1, d1, s1) = Sequence_step h index c d (begin_timer t s)
                in (c1, d1, again h (SequenceStep index1) s1))
           | _ \<Rightarrow> (c, d, s)))"

definition Sequence_reset ::
  "SequenceController \<Rightarrow> document \<Rightarrow> SequenceController \<times> document" where
  "Sequence_reset c d =
     (c, forEach (sq_messages c) (\<lambda>msg d. set_style d msg ''opacity'' (Str ''1'')) d)"

section \<open>InteractiveDiagramController\<close>

record options =
  showTooltip :: bool
  highlightConnections :: bool

text \<open>
  The \<^verbatim>\<open>options\<close> argument of the constructor: an object literal in which either key
  may be missing (\<open>None\<close>).  \<^verbatim>\<open>{showTooltip: true, highlightConnections: true, ...options}\<close>
  keeps a default where the key is missing.
\<close>

record options_arg =
  showTooltip_arg :: "bool option"
  highlightConnections_arg :: "bool option"

definition merge_options :: "options_arg \<Rightarrow> options" where
  "merge_options a =
     \<lparr>showTooltip = (case showTooltip_arg a of None \<Rightarrow> True | Some b \<Rightarrow> b),
      highlightConnections = (case highlightConnections_arg a of None \<Rightarrow> True | Some b \<Rightarrow> b)\<rparr>"

record InteractiveDiagramController =
  ic_svg :: "elem option"
  ic_nodes :: "elem list"
  ic_connections :: "elem list"
  ic_selectedNode :: "elem option"
  ic_tooltip :: "elem option"
  ic_options :: options

text \<open>
  \<^verbatim>\<open>createTooltip\<close> creates a group element, gives it a rectangle and a text child
  through \<^verbatim>\<open>innerHTML\<close>, and appends it to the container as its last child.  The
  three new elements take the next three unused references, and come last among the
  descendants of the container (the lists of the container's own ancestors, which no
  controller reads, are left as they are).
\<close>

definition new_element :: "string \<Rightarrow> string list \<Rightarrow> (string \<times> jsval) list \<Rightarrow> element" where
  "new_element t cs as =
     \<lparr>tagName = t, classList = cs, attributes = map_of as, style = (\<lambda>k. Str []),
      textContent = []\<rparr>"

definition Interactive_createTooltip ::
  "InteractiveDiagramController \<Rightarrow> document
     \<Rightarrow> (InteractiveDiagramController \<times> document) result" where
  "Interactive_createTooltip c d =
     (let g = created d; r = g + 1; t = g + 2;
          d1 = d\<lparr>created := g + 3, elements := (elements d)(g := new_element ''g'' [] [])\<rparr>;
          c1 = c\<lparr>ic_tooltip := Some g\<rparr>;
          d2 = setAttribute d1 g ''class'' (Str ''interactive-tooltip-group'');
          d3 = d2\<lparr>elements := (elements d2)
                  (r := new_element ''rect'' [''interactive-tooltip'']
                          [(''width'', Str ''150''), (''height'', Str ''40''),
                           (''x'', Str ''0''), (''y'', Str ''0'')],
                   t := new_element ''text'' [''interactive-tooltip-text'']
                          [(''x'', Str ''75''), (''y'', Str ''25''),
                           (''text-anchor'', Str ''middle'')]),
                 descendants := (descendants d2)(g := [r, t])\<rparr>
      in case ic_svg c1 of
           None \<Rightarrow> Throw TypeError (c1, d3)
         | Some svg \<Rightarrow>
             Return (c1, d3\<lparr>descendants := (descendants d3)(svg := descendants d3 svg @ [g, r, t])\<rparr>))"

definition Interactive_init ::
  "InteractiveDiagramController \<Rightarrow> document
     \<Rightarrow> (InteractiveDiagramController \<times> document) result" where
  "Interactive_init c d =
     (case ic_svg c of
        None \<Rightarrow> Return (c, d)
      | Some svg \<Rightarrow>
          (case (if showTooltip (ic_options c) then Interactive_createTooltip c d
                 else Return (c, d)) of
             Throw e x \<Rightarrow> Throw e x
           | Return (c0, d0) \<Rightarrow>
               (let c1 = c0\<lparr>ic_nodes := querySelectorAll d0 svg (ByClass ''interactive-node'')\<rparr>;
                    c2 = c1\<lparr>ic_connections :=
                              querySelectorAll d0 svg (ByClass ''interactive-connection'')\<rparr>;
                    d1 = forEach (ic_nodes c2)
                           (\<lambda>node d.
                              addEventListener
                                (addEventListener
                                   (addEventListener d node ''click'' (InteractiveClick node))
                                   node ''mouseenter'' (InteractiveEnter node))
                                node ''mouseleave'' (InteractiveLeave node)) d0
                in Return (c2, d1))))"

definition Interactive_new ::
  "string \<Rightarrow> options_arg \<Rightarrow> document \<Rightarrow> (InteractiveDiagramController \<times> document) result" where
  "Interactive_new svgElementId opts d =
     Interactive_init
       \<lparr>ic_svg = getElementById d svgElementId, ic_nodes = [], ic_connections = [],
        ic_selectedNode = None, ic_tooltip = None, ic_options = merge_options opts\<rparr> d"

definition Interactive_highlightRelatedConnections ::
  "InteractiveDiagramController \<Rightarrow> document \<Rightarrow> elem \<Rightarrow> document" where
  "Interactive_highlightRelatedConnections c d node =
     forEach (ic_connections c) (\<lambda>conn d. classList_add d conn ''active'') d"

definition Interactive_emitEvent ::
  "InteractiveDiagramController \<Rightarrow> document \<Rightarrow> string \<Rightarrow> detail
     \<Rightarrow> (InteractiveDiagramController \<times> document) result" where
  "Interactive_emitEvent c d eventName data =
     (case ic_svg c of
        None \<Rightarrow> Throw TypeError (c, d)
      | Some svg \<Rightarrow> Return (c, dispatchEvent d svg (''diagram:'' @ eventName) data))"

definition Interactive_onNodeClick ::
  "InteractiveDiagramController \<Rightarrow> document \<Rightarrow> elem
     \<Rightarrow> (InteractiveDiagramController \<times> document) result" where
  "Interactive_onNodeClick c d node =
     (let d1 = (case ic_selectedNode c of
                  Some sel \<Rightarrow> classList_remove d sel ''selected''
                | None \<Rightarrow> d);
          d2 = classList_add d1 node ''selected'';
          c1 = c\<lparr>ic_selectedNode := Some node\<rparr>;
          d3 = (if highlightConnections (ic_options c1)
                then Interactive_highlightRelatedConnections c1 d2 node else d2)
      in Interactive_emitEvent c1 d3 ''nodeSelected''
           (NodeSelected node (getAttribute d3 node ''data-id'')))"

text \<open>
  \<^verbatim>\<open>a || b || ''\<close> on strings: the first operand that is neither missing nor empty.
  \<^verbatim>\<open>getBBox\<close> answers from the layout of the host page.
\<close>

definition hover_label :: "document \<Rightarrow> elem \<Rightarrow> string" where
  "hover_label d node =
     (case getAttribute d node ''data-label'' of
        Some (Str s) \<Rightarrow>
          (if s \<noteq> [] then s
           else (case querySelector d node (ByTag ''text'') of
                   Some t \<Rightarrow> textContent (elements d t) | None \<Rightarrow> []))
      | _ \<Rightarrow> (case querySelector d node (ByTag ''text'') of
                Some t \<Rightarrow> textContent (elements d t) | None \<Rightarrow> []))"

definition Interactive_onNodeHover ::
  "InteractiveDiagramController \<Rightarrow> document \<Rightarrow> elem
     \<Rightarrow> (InteractiveDiagramController \<times> document) result" where
  "Interactive_onNodeHover c d node =
     (case (if showTooltip (ic_options c) then ic_tooltip c else None) of
        None \<Rightarrow> Return (c, d)
      | Some tooltip \<Rightarrow>
          (let label = hover_label d node;
               tooltipRect = querySelector d tooltip (ByClass ''interactive-tooltip'');
               tooltipText = querySelector d tooltip (ByClass ''interactive-tooltip-text'')
           in case tooltipText of
                None \<Rightarrow> Throw TypeError (c, d)
              | Some txt \<Rightarrow>
                  (let d1 = set_textContent d txt label;
                       b = bboxes d1 node;
                       d2 = setAttribute d1 tooltip ''transform''
                              (Translate (bbox_x b + bbox_width b + 10) (bbox_y b - 20));
                       d3 = set_style d2 tooltip ''opacity'' (Str ''1'')
                   in case tooltipRect of
                        None \<Rightarrow> Throw TypeError (c, d3)
                      | Some rect \<Rightarrow>
                          Return (c, set_style (set_style d3 rect ''opacity'' (Str ''1''))
                                       txt ''opacity'' (Str ''1'')))))"

definition Interactive_onNodeLeave ::
  "InteractiveDiagramController \<Rightarrow> document \<Rightarrow> elem
     \<Rightarrow> InteractiveDiagramController \<times> document" where
  "Interactive_onNodeLeave c d node =
     (case ic_tooltip c of
        None \<Rightarrow> (c, d)
      | Some tooltip \<Rightarrow>
          (let d1 = set_style d tooltip ''opacity'' (Str ''0'');
               tooltipRect = querySelector d1 tooltip (ByClass ''interactive-tooltip'');
               tooltipText = querySelector d1 tooltip (ByClass ''interactive-tooltip-text'');
               d2 = (case tooltipRect of
                       Some rect \<Rightarrow> set_style d1 rect ''opacity'' (Str ''0'') | None \<Rightarrow> d1);
               d3 = (case tooltipText of
                       Some txt \<Rightarrow> set_style d2 txt ''opacity'' (Str ''0'') | None \<Rightarrow> d2)
           in (c, d3)))"

definition Interactive_getSelectedNode :: "InteractiveDiagramController \<Rightarrow> elem option" where
  "Interactive_getSelectedNode c = ic_selectedNode c"

definition Interactive_reset ::
  "InteractiveDiagramController \<Rightarrow> document \<Rightarrow> InteractiveDiagramController \<times> document" where
  "Interactive_reset c d =
     (let (c1, d1) = (case ic_selectedNode c of
                        Some sel \<Rightarrow> (c\<lparr>ic_selectedNode := None\<rparr>, classList_remove d sel ''selected'')
                      | None \<Rightarrow> (c, d))
      in (c1, forEach (ic_connections c1) (\<lambda>conn d. classList_remove d conn ''active'') d1))"

section \<open>StateDiagramController\<close>

record StateDiagramController =
  st_svg :: "elem option"
  st_states :: "elem list"
  st_currentState :: "elem option"

definition State_init ::
  "StateDiagramController \<Rightarrow> document \<Rightarrow> StateDiagramController \<times> document" where
  "State_init c d =
     (case st_svg c of
        None \<Rightarrow> (c, d)
      | Some svg \<Rightarrow>
          (let c1 = c\<lparr>st_states := querySelectorAll d svg (ByClass ''state-node'')\<rparr>
           in (c1, forEach (st_states c1)
                     (\<lambda>state d. addEventListener d state ''click'' (StateClick state)) d)))"

definition State_new :: "string \<Rightarrow> document \<Rightarrow> StateDiagramController \<times> document" where
  "State_new svgElementId d =
     State_init \<lparr>st_svg = getElementById d svgElementId, st_states = [],
                 st_currentState = None\<rparr> d"

definition State_transitionTo ::
  "StateDiagramController \<Rightarrow> document \<Rightarrow> elem \<Rightarrow> (StateDiagramController \<times> document) result" where
  "State_transitionTo c d stateElement =
     (let d1 = forEach (st_states c) (\<lambda>s d. classList_remove d s ''active'') d;
          d2 = classList_add d1 stateElement ''active'';
          c1 = c\<lparr>st_currentState := Some stateElement\<rparr>;
          stateId = getAttribute d2 stateElement ''data-state-id''
      in case st_svg c1 of
           None \<Rightarrow> Throw TypeError (c1, d2)
         | Some svg \<Rightarrow> Return (c1, dispatchEvent d2 svg ''stateChanged'' (StateChanged stateId)))"

definition State_getCurrentState :: "StateDiagramController \<Rightarrow> elem option" where
  "State_getCurrentState c = st_currentState c"

text \<open>
  The closure \<^verbatim>\<open>play\<close> of \<^verbatim>\<open>playSequence\<close>, with the current value of the captured
  \<open>index\<close>.  \<^verbatim>\<open>getAttribute(..) === stateIds[index]\<close> holds when the attribute is
  present and equal to the entry; a missing attribute (\<^verbatim>\<open>null\<close>) and a missing entry
  (\<^verbatim>\<open>undefined\<close>) are not equal.  A throw of \<^verbatim>\<open>transitionTo\<close> leaves \<^verbatim>\<open>play\<close> before
  \<^verbatim>\<open>setTimeout\<close>.
\<close>

definition State_play ::
  "string list \<Rightarrow> nat \<Rightarrow> nat \<Rightarrow> StateDiagramController \<Rightarrow> document \<Rightarrow> scheduler
     \<Rightarrow> (StateDiagramController \<times> document \<times> scheduler) result" where
  "State_play stateIds interval index c d s =
     (let index1 = (if index \<ge> length stateIds then 0 else index);
          state = find (\<lambda>st. case at stateIds index1 of
                                None \<Rightarrow> False
                              | Some sid \<Rightarrow> getAttribute d st ''data-state-id'' = Some (Str sid))
                    (st_states c)
      in case (case state of
                 Some st \<Rightarrow> State_transitionTo c d st
               | None \<Rightarrow> Return (c, d)) of
           Throw e (c1, d1) \<Rightarrow> Throw e (c1, d1, s)
         | Return (c1, d1) \<Rightarrow>
             Return (c1, d1, snd (setTimeout s (StatePlay stateIds interval (Suc index1)) interval)))"

definition State_playSequence ::
  "string list \<Rightarrow> nat \<Rightarrow> StateDiagramController \<Rightarrow> document \<Rightarrow> scheduler
     \<Rightarrow> (StateDiagramController \<times> document \<times> scheduler) result" where
  "State_playSequence stateIds interval c d s = State_play stateIds interval 0 c d s"

definition State_fire ::
  "nat \<Rightarrow> StateDiagramController \<Rightarrow> document \<Rightarrow> scheduler
     \<Rightarrow> (StateDiagramController \<times> document \<times> scheduler) result" where
  "State_fire h c d s =
     (case find (\<lambda>t. handle t = h) (timers s) of
        None \<Rightarrow> Return (c, d, s)
      | Some t \<Rightarrow>
          (case callback t of
             StatePlay stateIds interval index \<Rightarrow>
               State_play stateIds interval index c d (begin_timer t s)
           | _ \<Rightarrow> Return (c, d, s)))"

section \<open>RefrigerationCycleController\<close>

record RefrigerationCycleController =
  rc_svg :: "elem option"
  rc_isAnimating :: bool
  rc_animationFrame :: "nat option"
  rc_flowPath :: "elem option"
  rc_compressor :: "elem option"
  rc_condenser :: "elem option"
  rc_expansionValve :: "elem option"
  rc_evaporator :: "elem option"

definition Refrigeration_init ::
  "RefrigerationCycleController \<Rightarrow> document \<Rightarrow> RefrigerationCycleController" where
  "Refrigeration_init c d =
     (case rc_svg c of
        None \<Rightarrow> c
      | Some svg \<Rightarrow>
          c\<lparr>rc_flowPath := querySelector d svg (ByClass ''refrigerant-flow''),
            rc_compressor := querySelector d svg (ByClass ''compressor''),
            rc_condenser := querySelector d svg (ByClass ''condenser''),
            rc_expansionValve := querySelector d svg (ByClass ''expansion-valve''),
            rc_evaporator := querySelector d svg (ByClass ''evaporator'')\<rparr>)"

definition Refrigeration_new :: "string \<Rightarrow> document \<Rightarrow> RefrigerationCycleController" where
  "Refrigeration_new svgElementId d =
     Refrigeration_init
       \<lparr>rc_svg = getElementById d svgElementId, rc_isAnimating = False,
        rc_animationFrame = None, rc_flowPath = None, rc_compressor = None,
        rc_condenser = None, rc_expansionValve = None, rc_evaporator = None\<rparr> d"

text \<open>
  The closure \<^verbatim>\<open>animate\<close> of \<^verbatim>\<open>startAnimation\<close>, with the current value of the captured
  \<open>offset\<close>.
\<close>

definition Refrigeration_animate ::
  "nat \<Rightarrow> RefrigerationCycleController \<Rightarrow> document \<Rightarrow> scheduler
     \<Rightarrow> RefrigerationCycleController \<times> document \<times> scheduler" where
  "Refrigeration_animate offset c d s =
     (case (if rc_isAnimating c then rc_flowPath c else None) of
        None \<Rightarrow> (c\<lparr>rc_isAnimating := False\<rparr>, d, s)
      | Some flowPath \<Rightarrow>
          (let offset1 = (offset + 2) mod 100;
               d1 = set_style d flowPath ''strokeDashoffset'' (Num offset1);
               (h, s1) = requestAnimationFrame s (Animate offset1)
           in (c\<lparr>rc_animationFrame := Some h\<rparr>, d1, s1)))"

definition Refrigeration_startAnimation ::
  "RefrigerationCycleController \<Rightarrow> document \<Rightarrow> scheduler
     \<Rightarrow> RefrigerationCycleController \<times> document \<times> scheduler" where
  "Refrigeration_startAnimation c d s =
     (if rc_isAnimating c then (c, d, s)
      else Refrigeration_animate 0 (c\<lparr>rc_isAnimating := True\<rparr>) d s)"

text \<open>\<^verbatim>\<open>if (this.animationFrame)\<close>: neither \<^verbatim>\<open>null\<close> nor the number 0.\<close>

definition Refrigeration_stopAnimation ::
  "RefrigerationCycleController \<Rightarrow> document \<Rightarrow> scheduler
     \<Rightarrow> RefrigerationCycleController \<times> document \<times> scheduler" where
  "Refrigeration_stopAnimation c d s =
     (let c1 = c\<lparr>rc_isAnimating := False\<rparr>
      in case rc_animationFrame c1 of
           Some h \<Rightarrow> (if h \<noteq> 0 then (c1, d, cancelAnimationFrame s h) else (c1, d, s))
         | None \<Rightarrow> (c1, d, s))"

definition Refrigeration_toggleAnimation ::
  "RefrigerationCycleController \<Rightarrow> document \<Rightarrow> scheduler
     \<Rightarrow> RefrigerationCycleController \<times> document \<times> scheduler" where
  "Refrigeration_toggleAnimation c d s =
     (if rc_isAnimating c then Refrigeration_stopAnimation c d s
      else Refrigeration_startAnimation c d s)"

text \<open>The host runs a pending frame callback once and drops it from the list.\<close>

definition Refrigeration_frame ::
  "nat \<Rightarrow> RefrigerationCycleController \<Rightarrow> document \<Rightarrow> scheduler
     \<Rightarrow> RefrigerationCycleController \<times> document \<times> scheduler" where
  "Refrigeration_frame h c d s =
     (case find (\<lambda>f. fst f = h) (frames s) of
        None \<Rightarrow> (c, d, s)
      | Some f \<Rightarrow>
          (case snd f of
             Animate offset \<Rightarrow> Refrigeration_animate offset c d (cancelAnimationFrame s h)
           | _ \<Rightarrow> (c, d, s)))"

section \<open>Scripted playback, tick by tick\<close>

text \<open>
  \<open>issued s\<close>: every pending timer carries a handle that the host has issued, so that
  the next handle names no pending timer.
\<close>

definition issued :: "scheduler \<Rightarrow> bool" where
  "issued s = list_all (\<lambda>t. handle t \<le> timerHandles s) (timers s)"

text \<open>
  \<open>Flowchart_play n\<close>: \<^verbatim>\<open>playAnimation()\<close>, then the host fires the interval timer it
  registered \<open>n\<close> times.
\<close>

fun Flowchart_run ::
  "nat \<Rightarrow> nat \<Rightarrow> FlowchartController \<Rightarrow> document \<Rightarrow> scheduler
     \<Rightarrow> FlowchartController \<times> document \<times> scheduler" where
  "Flowchart_run 0 h c d s = (c, d, s)"
| "Flowchart_run (Suc n) h c d s =
     (case Flowchart_run n h c d s of (c1, d1, s1) \<Rightarrow> Flowchart_fire h c1 d1 s1)"

definition Flowchart_play ::
  "nat \<Rightarrow> FlowchartController \<Rightarrow> document \<Rightarrow> scheduler
     \<Rightarrow> FlowchartController \<times> document \<times> scheduler" where
  "Flowchart_play n c d s =
     (case Flowchart_playAnimation c d s of
        (c1, d1, s1) \<Rightarrow> Flowchart_run n (timerHandles s1) c1 d1 s1)"

text \<open>
  \<open>Sequence_play n\<close>: \<^verbatim>\<open>playSequence()\<close>, then the host fires the interval timer it
  registered \<open>n\<close> times.
\<close>

fun Sequence_run ::
  "nat \<Rightarrow> nat \<Rightarrow> SequenceController \<Rightarrow> document \<Rightarrow> scheduler
     \<Rightarrow> SequenceController \<times> document \<times> scheduler" where
  "Sequence_run 0 h c d s = (c, d, s)"
| "Sequence_run (Suc n) h c d s =
     (case Sequence_run n h c d s of (c1, d1, s1) \<Rightarrow> Sequence_fire h c1 d1 s1)"

definition Sequence_play ::
  "nat \<Rightarrow> SequenceController \<Rightarrow> document \<Rightarrow> scheduler
     \<Rightarrow> SequenceController \<times> document \<times> scheduler" where
  "Sequence_play n c d s =
     (case Sequence_playSequence c d s of
        (c1, d1, s1) \<Rightarrow> Sequence_run n (timerHandles s1) c1 d1 s1)"

text \<open>The messages at full opacity, and the dimmed ones.\<close>

definition lit :: "SequenceController \<Rightarrow> document \<Rightarrow> elem list" where
  "lit c d = filter (\<lambda>m. get_style d m ''opacity'' = Str ''1'') (sq_messages c)"

definition dimmed :: "SequenceController \<Rightarrow> document \<Rightarrow> elem list" where
  "dimmed c d = filter (\<lambda>m. get_style d m ''opacity'' = Str ''0.3'') (sq_messages c)"

text \<open>
  \<open>State_run ids iv n\<close>: \<^verbatim>\<open>playSequence(ids, iv)\<close>, whose first tick runs inside the
  call, then \<open>n\<close> times the host fires the timeout that the tick before has set (the
  handle issued last).
\<close>

fun State_run ::
  "string list \<Rightarrow> nat \<Rightarrow> nat \<Rightarrow> StateDiagramController \<Rightarrow> document \<Rightarrow> scheduler
     \<Rightarrow> (StateDiagramController \<times> document \<times> scheduler) result" where
  "State_run stateIds interval 0 c d s = State_playSequence stateIds interval c d s"
| "State_run stateIds interval (Suc n) c d s =
     (case State_run stateIds interval n c d s of
        Throw e x \<Rightarrow> Throw e x
      | Return (c1, d1, s1) \<Rightarrow> State_fire (timerHandles s1) c1 d1 s1)"

text \<open>
  The cycle as the specification words it: tick \<open>k\<close> (from 0) looks up entry
  \<open>k mod length stateIds\<close> of the list, transitions to the first state element whose
  \<^verbatim>\<open>data-state-id\<close> is that entry, and changes nothing when there is none.
\<close>

definition State_visit ::
  "string list \<Rightarrow> nat \<Rightarrow> StateDiagramController \<Rightarrow> document
     \<Rightarrow> StateDiagramController \<times> document" where
  "State_visit stateIds k c d =
     (if stateIds = [] then (c, d)
      else (case find (\<lambda>st. getAttribute d st ''data-state-id'' =
                              Some (Str (stateIds ! (k mod length stateIds)))) (st_states c) of
              None \<Rightarrow> (c, d)
            | Some st \<Rightarrow> (case State_transitionTo c d st of Return x \<Rightarrow> x | Throw e x \<Rightarrow> x)))"

fun State_cycle ::
  "string list \<Rightarrow> nat \<Rightarrow> StateDiagramController \<Rightarrow> document
     \<Rightarrow> StateDiagramController \<times> document" where
  "State_cycle stateIds 0 c d = State_visit stateIds 0 c d"
| "State_cycle stateIds (Suc k) c d =
     (case State_cycle stateIds k c d of (c1, d1) \<Rightarrow> State_visit stateIds (Suc k) c1 d1)"

section \<open>The refrigeration animation, frame by frame\<close>

text \<open>
  The states a \<^verbatim>\<open>RefrigerationCycleController\<close> reaches: constructed while no frame
  callback is pending, then any sequence of calls of its three methods and of frame
  callbacks run by the host.
\<close>

inductive Refrigeration_reach ::
  "RefrigerationCycleController \<times> document \<times> scheduler \<Rightarrow> bool" where
  construct: "frames s = [] \<Longrightarrow> Refrigeration_reach (Refrigeration_new svgElementId d, d, s)"
| start: "Refrigeration_reach (c, d, s) \<Longrightarrow> Refrigeration_reach (Refrigeration_startAnimation c d s)"
| stop: "Refrigeration_reach (c, d, s) \<Longrightarrow> Refrigeration_reach (Refrigeration_stopAnimation c d s)"
| toggle: "Refrigeration_reach (c, d, s) \<Longrightarrow> Refrigeration_reach (Refrigeration_toggleAnimation c d s)"
| frame: "Refrigeration_reach (c, d, s) \<Longrightarrow> Refrigeration_reach (Refrigeration_frame h c d s)"

text \<open>
  \<open>Refrigeration_frames n\<close>: the host runs, \<open>n\<close> times, the frame callback whose handle
  the controller holds.
\<close>

fun Refrigeration_frames ::
  "nat \<Rightarrow> RefrigerationCycleController \<times> document \<times> scheduler
     \<Rightarrow> RefrigerationCycleController \<times> document \<times> scheduler" where
  "Refrigeration_frames 0 x = x"
| "Refrigeration_frames (Suc n) x =
     (case Refrigeration_frames n x of
        (c, d, s) \<Rightarrow>
          (case rc_animationFrame c of
             Some h \<Rightarrow> Refrigeration_frame h c d s
           | None \<Rightarrow> (c, d, s)))"

section \<open>Example pages\<close>

definition blank :: document where
  "blank =
     \<lparr>elements = (\<lambda>e. new_element [] [] []), byId = (\<lambda>i. None), descendants = (\<lambda>e. []),
      nextElementSibling = (\<lambda>e. None),
      bboxes = (\<lambda>e. \<lparr>bbox_x = 0, bbox_y = 0, bbox_width = 0, bbox_height = 0\<rparr>),
      created = 100, listeners = [], dispatched = [], console = []\<rparr>"

definition idle :: scheduler where
  "idle = \<lparr>now = 0, timerHandles = 0, timers = [], frameHandles = 0, frames = []\<rparr>"

text \<open>A flowchart with the three nodes of the specification's example.\<close>

definition flow_page :: document where
  "flow_page =
     blank\<lparr>elements := (elements blank)
             (11 := new_element ''g'' [''flowchart-node''] [],
              12 := new_element ''g'' [''flowchart-node''] [],
              13 := new_element ''g'' [''flowchart-node''] []),
           byId := (byId blank)(''flow'' := Some 10),
           descendants := (descendants blank)(10 := [11, 12, 13])\<rparr>"

definition seq_page :: document where
  "seq_page =
     blank\<lparr>elements := (elements blank)
             (11 := new_element ''line'' [''sequence-message''] [],
              12 := new_element ''line'' [''sequence-message''] []),
           byId := (byId blank)(''seq'' := Some 10),
           descendants := (descendants blank)(10 := [11, 12])\<rparr>"

text \<open>Two nodes and a connection; in \<open>marked_page\<close> the markup pre-selects node 12.\<close>

definition graph_page :: document where
  "graph_page =
     blank\<lparr>elements := (elements blank)
             (11 := new_element ''g'' [''interactive-node'']
                     [(''data-id'', Str ''a''), (''data-label'', Str ''Compressor'')],
              12 := new_element ''g'' [''interactive-node''] [(''data-id'', Str ''b'')],
              13 := new_element ''path'' [''interactive-connection''] []),
           byId := (byId blank)(''graph'' := Some 10),
           descendants := (descendants blank)(10 := [11, 12, 13]),
           bboxes := (bboxes blank)
             (11 := \<lparr>bbox_x = 10, bbox_y = 30, bbox_width = 80, bbox_height = 40\<rparr>)\<rparr>"

definition marked_page :: document where
  "marked_page =
     graph_page\<lparr>elements := (elements graph_page)
       (12 := new_element ''g'' [''interactive-node'', ''selected''] [(''data-id'', Str ''b'')])\<rparr>"

definition state_page :: document where
  "state_page =
     blank\<lparr>elements := (elements blank)
             (11 := new_element ''g'' [''state-node''] [(''data-state-id'', Str ''off'')],
              12 := new_element ''g'' [''state-node''] [(''data-state-id'', Str ''cooling'')]),
           byId := (byId blank)(''states'' := Some 10),
           descendants := (descendants blank)(10 := [11, 12])\<rparr>"

definition fridge_page :: document where
  "fridge_page =
     blank\<lparr>elements := (elements blank)(11 := new_element ''path'' [''refrigerant-flow''] []),
           byId := (byId blank)(''fridge'' := Some 10),
           descendants := (descendants blank)(10 := [11])\<rparr>"

text \<open>The state a call has reached, whether it returned or threw.\<close>

definition state_of :: "'a result \<Rightarrow> 'a" where
  "state_of r = (case r of Return x \<Rightarrow> x | Throw e x \<Rightarrow> x)"

text \<open>The nodes of an interactive diagram that carry the class \<^verbatim>\<open>selected\<close>.\<close>

definition selected_nodes :: "InteractiveDiagramController \<Rightarrow> document \<Rightarrow> elem list" where
  "selected_nodes c d = filter (\<lambda>n. classList_contains d n ''selected'') (ic_nodes c)"

definition default_options :: options_arg where
  "default_options = \<lparr>showTooltip_arg = None, highlightConnections_arg = None\<rparr>"

text \<open>
  The interactive controller over \<open>graph_page\<close> with the default options, and the state
  after the pointer has entered node 11 and clicked it.
\<close>

definition graph_new :: "InteractiveDiagramController \<times> document" where
  "graph_new = state_of (Interactive_new ''graph'' default_options graph_page)"

definition graph_hovered :: "InteractiveDiagramController \<times> document" where
  "graph_hovered =
     (case graph_new of
        (c, d) \<Rightarrow>
          (case state_of (Interactive_onNodeHover c d 11) of
             (c1, d1) \<Rightarrow> state_of (Interactive_onNodeClick c1 d1 11)))"

text \<open>The same controller over \<open>marked_page\<close>, whose markup pre-selects node 12.\<close>

definition marked_new :: "InteractiveDiagramController \<times> document" where
  "marked_new = state_of (Interactive_new ''graph'' default_options marked_page)"

text \<open>
  The dash-offset counter as the specification words it: it starts at 0 and every frame
  advances it by 2 modulo 100.
\<close>

primrec dash_offset :: "nat \<Rightarrow> nat" where
  "dash_offset 0 = 0"
| "dash_offset (Suc n) = (dash_offset n + 2) mod 100"

text \<open>
  What holds in every reachable state of the refrigeration controller: while it is
  running, the one pending frame callback is the one whose handle the controller holds,
  its counter is even and below 100, and there is a flow path; while it is not running,
  no frame callback is pending; a handle the controller holds is a positive, issued one.
\<close>

definition Refrigeration_inv ::
  "RefrigerationCycleController \<times> document \<times> scheduler \<Rightarrow> bool" where
  "Refrigeration_inv x =
     (case x of
        (c, d, s) \<Rightarrow>
          (if rc_isAnimating c
           then rc_flowPath c \<noteq> None \<and> rc_animationFrame c = Some (frameHandles s) \<and>
                (case frames s of
                   [(h, Animate offset)] \<Rightarrow> h = frameHandles s \<and> even offset \<and> offset < 100
                 | _ \<Rightarrow> False)
           else frames s = []) \<and>
          (case rc_animationFrame c of
             Some h \<Rightarrow> 0 < h \<and> h \<le> frameHandles s
           | None \<Rightarrow> True))"

section \<open>A click, as the browser delivers it\<close>

text \<open>
  A click is an event that bubbles: the browser runs the click listeners of the target
  and then those of each ancestor, from the nearest one outwards, and on one element in
  the order of their registration.  Nothing in the source stops the propagation, and an
  exception in a listener is reported without stopping the listeners after it.

  \<open>propagation_path d target\<close> lists the elements that carry a listener and are the
  target or an ancestor of it, innermost first: an element of the path lies the farther
  out the more elements of the path are among its descendants.  \<open>click_listeners\<close>
  are the listeners a click on \<open>target\<close> runs, in order.
\<close>

definition propagation_path :: "document \<Rightarrow> elem \<Rightarrow> elem list" where
  "propagation_path d target =
     (let on = filter (\<lambda>e. e = target \<or> target \<in> set (descendants d e))
                 (remdups (map fst (listeners d)))
      in sort_key (\<lambda>e. length (filter (\<lambda>a. a \<in> set (descendants d e)) on)) on)"

definition click_listeners :: "document \<Rightarrow> elem \<Rightarrow> listener list" where
  "click_listeners d target =
     concat (map (\<lambda>e. map (\<lambda>x. snd (snd x))
                         (filter (\<lambda>x. fst x = e \<and> fst (snd x) = ''click'') (listeners d)))
               (propagation_path d target))"

text \<open>
  One listener of an \<^verbatim>\<open>InteractiveDiagramController\<close> run for a click: the arrow function
  \<^verbatim>\<open>(e) => this.onNodeClick(e, node)\<close> of \<^verbatim>\<open>init\<close>.  The state carries the exceptions
  reported so far.  Listeners of other controllers are not this controller's to run.
\<close>

fun Interactive_listen ::
  "listener \<Rightarrow> error list \<times> InteractiveDiagramController \<times> document
     \<Rightarrow> error list \<times> InteractiveDiagramController \<times> document" where
  "Interactive_listen (InteractiveClick node) (es, c, d) =
     (case Interactive_onNodeClick c d node of
        Return (c1, d1) \<Rightarrow> (es, c1, d1)
      | Throw e (c1, d1) \<Rightarrow> (es @ [e], c1, d1))"
| "Interactive_listen l x = x"

definition Interactive_click ::
  "InteractiveDiagramController \<Rightarrow> document \<Rightarrow> elem
     \<Rightarrow> error list \<times> InteractiveDiagramController \<times> document" where
  "Interactive_click c d target = fold Interactive_listen (click_listeners d target) ([], c, d)"

text \<open>
  \<open>registered c d\<close>: the click listeners of the page are those that \<^verbatim>\<open>init\<close> has
  registered, one per node.
\<close>

definition registered :: "InteractiveDiagramController \<Rightarrow> document \<Rightarrow> bool" where
  "registered c d =
     (distinct (ic_nodes c) \<and>
      filter (\<lambda>x. fst (snd x) = ''click'') (listeners d) =
        map (\<lambda>n. (n, ''click'', InteractiveClick n)) (ic_nodes c))"


text \<open>Markup in which node 12 lies inside node 11, and the controller over it.\<close>

definition nested_page :: document where
  "nested_page =
     blank\<lparr>elements := (elements blank)
             (11 := new_element ''g'' [''interactive-node''] [(''data-id'', Str ''a'')],
              12 := new_element ''g'' [''interactive-node''] [(''data-id'', Str ''b'')]),
           byId := (byId blank)(''graph'' := Some 10),
           descendants := (descendants blank)(10 := [11, 12], 11 := [12])\<rparr>"

definition nested_new :: "InteractiveDiagramController \<times> document" where
  "nested_new = state_of (Interactive_new ''graph'' default_options nested_page)"

section \<open>Facts about the DOM operations\<close>

lemma upd_elem_elements [simp]:
  "elements (upd_elem e f d) e' = (if e' = e then f (elements d e) else elements d e')"
  by (simp add: upd_elem_def)

lemma upd_elem_rest [simp]:
  "byId (upd_elem e f d) = byId d"
  "descendants (upd_elem e f d) = descendants d"
  "nextElementSibling (upd_elem e f d) = nextElementSibling d"
  "bboxes (upd_elem e f d) = bboxes d"
  "created (upd_elem e f d) = created d"
  "listeners (upd_elem e f d) = listeners d"
  "dispatched (upd_elem e f d) = dispatched d"
  "console (upd_elem e f d) = console d"
  by (simp_all add: upd_elem_def)

lemma forEach_Nil [simp]: "forEach [] f d = d"
  by (simp add: forEach_def)

lemma forEach_Cons [simp]: "forEach (x # xs) f d = forEach xs f (f x d)"
  by (simp add: forEach_def)

lemma forEach_upd_elem_rest:
  "byId (forEach xs (\<lambda>x. upd_elem x (g x)) d) = byId d"
  "descendants (forEach xs (\<lambda>x. upd_elem x (g x)) d) = descendants d"
  "nextElementSibling (forEach xs (\<lambda>x. upd_elem x (g x)) d) = nextElementSibling d"
  "bboxes (forEach xs (\<lambda>x. upd_elem x (g x)) d) = bboxes d"
  "created (forEach xs (\<lambda>x. upd_elem x (g x)) d) = created d"
  "listeners (forEach xs (\<lambda>x. upd_elem x (g x)) d) = listeners d"
  "dispatched (forEach xs (\<lambda>x. upd_elem x (g x)) d) = dispatched d"
  "console (forEach xs (\<lambda>x. upd_elem x (g x)) d) = console d"
  by (induction xs arbitrary: d; simp)+

text \<open>A loop that applies one idempotent change to every element of a list.\<close>

lemma forEach_upd_elem_elements:
  assumes "\<And>x. f (f x) = f x"
  shows "elements (forEach xs (\<lambda>x. upd_elem x f) d) e =
           (if e \<in> set xs then f (elements d e) else elements d e)"
  using assms by (induction xs arbitrary: d) auto

lemma forEach_remove_elements:
  "elements (forEach xs (\<lambda>x d. classList_remove d x c) d) e =
     (if e \<in> set xs then (elements d e)\<lparr>classList := removeAll c (classList (elements d e))\<rparr>
      else elements d e)"
proof -
  have "(\<lambda>x d. classList_remove d x c) =
        (\<lambda>x. upd_elem x (\<lambda>y. y\<lparr>classList := removeAll c (classList y)\<rparr>))"
    by (simp add: classList_remove_def fun_eq_iff)
  then show ?thesis
    by (simp add: forEach_upd_elem_elements)
qed

lemma forEach_remove_rest:
  "byId (forEach xs (\<lambda>x d. classList_remove d x c) d) = byId d"
  "descendants (forEach xs (\<lambda>x d. classList_remove d x c) d) = descendants d"
  "listeners (forEach xs (\<lambda>x d. classList_remove d x c) d) = listeners d"
  "dispatched (forEach xs (\<lambda>x d. classList_remove d x c) d) = dispatched d"
  "console (forEach xs (\<lambda>x d. classList_remove d x c) d) = console d"
  "created (forEach xs (\<lambda>x d. classList_remove d x c) d) = created d"
  "bboxes (forEach xs (\<lambda>x d. classList_remove d x c) d) = bboxes d"
  "nextElementSibling (forEach xs (\<lambda>x d. classList_remove d x c) d) = nextElementSibling d"
  unfolding classList_remove_def by (rule forEach_upd_elem_rest)+

section \<open>StateDiagramController: transitions\<close>

lemma State_transitionTo_Return:
  assumes "st_svg c = Some svg"
  shows "State_transitionTo c d S =
     Return (c\<lparr>st_currentState := Some S\<rparr>,
       dispatchEvent
         (classList_add (forEach (st_states c) (\<lambda>s d. classList_remove d s ''active'') d) S ''active'')
         svg ''stateChanged'' (StateChanged (getAttribute d S ''data-state-id'')))"
  using assms
  by (simp add: State_transitionTo_def Let_def getAttribute_def classList_add_def
      forEach_remove_elements)

lemma State_transitionTo_active:
  assumes "State_transitionTo c d S = Return (c', d')"
  shows "classList_contains d' e ''active'' \<longleftrightarrow>
           e = S \<or> (e \<notin> set (st_states c) \<and> classList_contains d e ''active'')"
  using assms
  by (auto simp: State_transitionTo_def Let_def classList_contains_def classList_add_def
      dispatchEvent_def forEach_remove_elements split: option.splits if_splits)

text \<open>
  C6.  With an existing container and a state element \<open>S\<close> of the controller, two calls
  \<^verbatim>\<open>transitionTo(S)\<close> in a row both return; afterwards \<open>S\<close> is the one state element
  marked \<^verbatim>\<open>active\<close>, \<^verbatim>\<open>getCurrentState()\<close> is \<open>S\<close>, and each call has dispatched
  exactly one \<^verbatim>\<open>stateChanged\<close> event, on the container, whose payload is the
  \<^verbatim>\<open>data-state-id\<close> of \<open>S\<close>.
\<close>

theorem State_transitionTo_twice:
  assumes "st_svg c = Some svg" and "S \<in> set (st_states c)"
  shows "\<exists>c1 d1 c2 d2.
           State_transitionTo c d S = Return (c1, d1) \<and>
           State_transitionTo c1 d1 S = Return (c2, d2) \<and>
           (\<forall>e \<in> set (st_states c). classList_contains d2 e ''active'' \<longleftrightarrow> e = S) \<and>
           st_states c2 = st_states c \<and>
           State_getCurrentState c2 = Some S \<and>
           dispatched d1 = dispatched d @
             [(svg, ''stateChanged'', StateChanged (getAttribute d S ''data-state-id''))] \<and>
           dispatched d2 = dispatched d1 @
             [(svg, ''stateChanged'', StateChanged (getAttribute d S ''data-state-id''))]"
proof -
  let ?ev = "(svg, ''stateChanged'', StateChanged (getAttribute d S ''data-state-id''))"
  define c1 where "c1 = c\<lparr>st_currentState := Some S\<rparr>"
  define d1 where "d1 = dispatchEvent
         (classList_add (forEach (st_states c) (\<lambda>s d. classList_remove d s ''active'') d) S ''active'')
         svg ''stateChanged'' (StateChanged (getAttribute d S ''data-state-id''))"
  have r1: "State_transitionTo c d S = Return (c1, d1)"
    unfolding c1_def d1_def by (rule State_transitionTo_Return [OF assms(1)])
  have svg1: "st_svg c1 = Some svg" and st1: "st_states c1 = st_states c"
    using assms(1) by (simp_all add: c1_def)
  define c2 where "c2 = c1\<lparr>st_currentState := Some S\<rparr>"
  define d2 where "d2 = dispatchEvent
         (classList_add (forEach (st_states c1) (\<lambda>s d. classList_remove d s ''active'') d1) S ''active'')
         svg ''stateChanged'' (StateChanged (getAttribute d1 S ''data-state-id''))"
  have r2: "State_transitionTo c1 d1 S = Return (c2, d2)"
    unfolding c2_def d2_def by (rule State_transitionTo_Return [OF svg1])
  have act: "\<forall>e \<in> set (st_states c). classList_contains d2 e ''active'' \<longleftrightarrow> e = S"
    using State_transitionTo_active [OF r2] st1 by auto
  have ev1: "dispatched d1 = dispatched d @ [?ev]"
    by (simp add: d1_def dispatchEvent_def classList_add_def forEach_remove_rest)
  have attr: "getAttribute d1 S ''data-state-id'' = getAttribute d S ''data-state-id''"
    by (simp add: d1_def getAttribute_def dispatchEvent_def classList_add_def
        forEach_remove_elements)
  have ev2: "dispatched d2 = dispatched d1 @ [?ev]"
    by (simp add: d2_def attr dispatchEvent_def classList_add_def forEach_remove_rest)
  have "st_states c2 = st_states c" "State_getCurrentState c2 = Some S"
    by (simp_all add: c2_def c1_def State_getCurrentState_def)
  then show ?thesis
    using r1 r2 act ev1 ev2 by blast
qed


text \<open>The controller over \<open>state_page\<close>, and the theorem at its second state.\<close>

lemma state_page_new:
  "State_new ''states'' state_page =
     (\<lparr>st_svg = Some 10, st_states = [11, 12], st_currentState = None\<rparr>,
      state_page\<lparr>listeners := [(11, ''click'', StateClick 11), (12, ''click'', StateClick 12)]\<rparr>)"
  by (simp add: State_new_def State_init_def getElementById_def querySelectorAll_def
      state_page_def blank_def new_element_def addEventListener_def Let_def)

theorem State_transitionTo_twice_witness:
  "st_svg (fst (State_new ''states'' state_page)) = Some 10 \<and>
   12 \<in> set (st_states (fst (State_new ''states'' state_page))) \<and>
   (\<exists>c1 d1 c2 d2.
      State_transitionTo (fst (State_new ''states'' state_page))
        (snd (State_new ''states'' state_page)) 12 = Return (c1, d1) \<and>
      State_transitionTo c1 d1 12 = Return (c2, d2) \<and>
      (\<forall>e \<in> set (st_states (fst (State_new ''states'' state_page))).
         classList_contains d2 e ''active'' \<longleftrightarrow> e = 12) \<and>
      st_states c2 = st_states (fst (State_new ''states'' state_page)) \<and>
      State_getCurrentState c2 = Some 12 \<and>
      dispatched d1 = dispatched (snd (State_new ''states'' state_page)) @
        [(10, ''stateChanged'', StateChanged
           (getAttribute (snd (State_new ''states'' state_page)) 12 ''data-state-id''))] \<and>
      dispatched d2 = dispatched d1 @
        [(10, ''stateChanged'', StateChanged
           (getAttribute (snd (State_new ''states'' state_page)) 12 ''data-state-id''))])"
proof -
  have h1: "st_svg (fst (State_new ''states'' state_page)) = Some 10"
    by (simp add: state_page_new)
  have h2: "12 \<in> set (st_states (fst (State_new ''states'' state_page)))"
    by (simp add: state_page_new)
  show ?thesis
    using h1 h2 State_transitionTo_twice [OF h1 h2] by blast
qed

section \<open>Construction over a missing container\<close>

lemma Flowchart_new_missing:
  "getElementById d i = None \<Longrightarrow>
     Flowchart_new i d =
       (\<lparr>fc_svg = None, fc_nodes = [], fc_connections = [], fc_currentStep = 0\<rparr>, d)"
  by (simp add: Flowchart_new_def Flowchart_init_def)

lemma Sequence_new_missing:
  "getElementById d i = None \<Longrightarrow>
     Sequence_new i d = (\<lparr>sq_svg = None, sq_messages = [], sq_actors = []\<rparr>, d)"
  by (simp add: Sequence_new_def Sequence_init_def)

lemma Interactive_new_missing:
  "getElementById d i = None \<Longrightarrow>
     Interactive_new i opts d =
       Return (\<lparr>ic_svg = None, ic_nodes = [], ic_connections = [], ic_selectedNode = None,
                ic_tooltip = None, ic_options = merge_options opts\<rparr>, d)"
  by (simp add: Interactive_new_def Interactive_init_def)

lemma State_new_missing:
  "getElementById d i = None \<Longrightarrow>
     State_new i d = (\<lparr>st_svg = None, st_states = [], st_currentState = None\<rparr>, d)"
  by (simp add: State_new_def State_init_def)

lemma Refrigeration_new_missing:
  "getElementById d i = None \<Longrightarrow>
     Refrigeration_new i d =
       \<lparr>rc_svg = None, rc_isAnimating = False, rc_animationFrame = None, rc_flowPath = None,
        rc_compressor = None, rc_condenser = None, rc_expansionValve = None,
        rc_evaporator = None\<rparr>"
  by (simp add: Refrigeration_new_def Refrigeration_init_def)

text \<open>
  The methods of an inert controller that touch neither the container nor an element
  return and change nothing: the resets, the getters, the first tick of the state cycle
  (no state element is found), and the animation (no flow path).
\<close>

lemma inert_methods_return:
  assumes "getElementById d i = None"
  shows "Flowchart_reset (fst (Flowchart_new i d)) d = (fst (Flowchart_new i d), d)"
    and "Sequence_reset (fst (Sequence_new i d)) d = (fst (Sequence_new i d), d)"
    and "Interactive_new i opts d = Return (c, d') \<Longrightarrow>
           Interactive_reset c d = (c, d) \<and> Interactive_getSelectedNode c = None"
    and "State_getCurrentState (fst (State_new i d)) = None"
    and "\<exists>s'. State_playSequence ids iv (fst (State_new i d)) d s =
                 Return (fst (State_new i d), d, s')"
    and "Refrigeration_startAnimation (Refrigeration_new i d) d s = (Refrigeration_new i d, d, s)"
    and "Refrigeration_stopAnimation (Refrigeration_new i d) d s = (Refrigeration_new i d, d, s)"
    and "Refrigeration_toggleAnimation (Refrigeration_new i d) d s = (Refrigeration_new i d, d, s)"
  using assms
  by (auto simp: Flowchart_new_missing Sequence_new_missing Interactive_new_missing
      State_new_missing Refrigeration_new_missing Flowchart_reset_def Sequence_reset_def
      Interactive_reset_def Interactive_getSelectedNode_def State_getCurrentState_def
      State_playSequence_def State_play_def Refrigeration_startAnimation_def
      Refrigeration_stopAnimation_def Refrigeration_toggleAnimation_def
      Refrigeration_animate_def Let_def)

lemma State_transitionTo_missing:
  assumes "getElementById d i = None"
  shows "State_transitionTo (fst (State_new i d)) (snd (State_new i d)) e =
           Throw TypeError
             (\<lparr>st_svg = None, st_states = [], st_currentState = Some e\<rparr>,
              classList_add d e ''active'')"
  using assms by (simp add: State_new_missing State_transitionTo_def Let_def)

text \<open>
  C1.  A \<^verbatim>\<open>StateDiagramController\<close> constructed with an id that matches no element
  (\<^verbatim>\<open>missing\<close> on \<open>state_page\<close>) has registered no listener, but its public method
  \<^verbatim>\<open>transitionTo\<close>, called with an element of the page, throws a \<^verbatim>\<open>TypeError\<close> at
  \<^verbatim>\<open>this.svg.dispatchEvent\<close>, after it has marked the element \<^verbatim>\<open>active\<close> and recorded
  it as the current state.
\<close>

theorem State_transitionTo_inert_throws:
  "listeners (snd (State_new ''missing'' state_page)) = [] \<and>
   State_transitionTo (fst (State_new ''missing'' state_page))
       (snd (State_new ''missing'' state_page)) 11 =
     Throw TypeError
       (\<lparr>st_svg = None, st_states = [], st_currentState = Some 11\<rparr>,
        classList_add state_page 11 ''active'')"
proof -
  have m: "getElementById state_page ''missing'' = None"
    by (simp add: getElementById_def state_page_def blank_def)
  have l: "listeners state_page = []"
    by (simp add: state_page_def blank_def)
  show ?thesis
    using State_transitionTo_missing [OF m, of 11] State_new_missing [OF m] l by simp
qed

section \<open>InteractiveDiagramController: selection and connections\<close>

lemma forEach_add_elements:
  "elements (forEach xs (\<lambda>x d. classList_add d x c) d) e =
     (if e \<in> set xs
      then (elements d e)\<lparr>classList := (if c \<in> set (classList (elements d e))
                                          then classList (elements d e)
                                          else classList (elements d e) @ [c])\<rparr>
      else elements d e)"
proof -
  have "(\<lambda>x d. classList_add d x c) =
        (\<lambda>x. upd_elem x (\<lambda>y. y\<lparr>classList := (if c \<in> set (classList y) then classList y
                                                  else classList y @ [c])\<rparr>))"
    by (simp add: classList_add_def fun_eq_iff)
  then show ?thesis
    by (simp add: forEach_upd_elem_elements)
qed


lemma contains_add:
  "classList_contains (classList_add d e c) e' c' \<longleftrightarrow>
     (e' = e \<and> c' = c) \<or> classList_contains d e' c'"
  by (auto simp: classList_contains_def classList_add_def)

lemma contains_remove:
  "classList_contains (classList_remove d e c) e' c' \<longleftrightarrow>
     classList_contains d e' c' \<and> \<not> (e' = e \<and> c' = c)"
  by (auto simp: classList_contains_def classList_remove_def)

lemma contains_forEach_add:
  "classList_contains (forEach xs (\<lambda>x d. classList_add d x c) d) e c' \<longleftrightarrow>
     (e \<in> set xs \<and> c' = c) \<or> classList_contains d e c'"
  by (auto simp: classList_contains_def forEach_add_elements)

lemma contains_forEach_remove:
  "classList_contains (forEach xs (\<lambda>x d. classList_remove d x c) d) e c' \<longleftrightarrow>
     classList_contains d e c' \<and> \<not> (e \<in> set xs \<and> c' = c)"
  by (auto simp: classList_contains_def forEach_remove_elements)

lemma contains_dispatchEvent [simp]:
  "classList_contains (dispatchEvent d e nm x) = classList_contains d"
  by (simp add: classList_contains_def dispatchEvent_def fun_eq_iff)

text \<open>What a click does, in one equation, when the container exists.\<close>

lemma Interactive_onNodeClick_Return:
  assumes "ic_svg c = Some svg"
  shows "\<exists>d'. Interactive_onNodeClick c d node = Return (c\<lparr>ic_selectedNode := Some node\<rparr>, d') \<and>
          (\<forall>e k. classList_contains d' e k \<longleftrightarrow>
             (e = node \<and> k = ''selected'') \<or>
             (highlightConnections (ic_options c) \<and> e \<in> set (ic_connections c) \<and> k = ''active'') \<or>
             (classList_contains d e k \<and> \<not> (ic_selectedNode c = Some e \<and> k = ''selected'')))"
  using assms
  by (cases "ic_selectedNode c")
    (auto simp: Interactive_onNodeClick_def Interactive_emitEvent_def Let_def
      Interactive_highlightRelatedConnections_def contains_add contains_remove
      contains_forEach_add)

lemma merge_options_enabled:
  "highlightConnections (merge_options opts) \<longleftrightarrow> highlightConnections_arg opts \<noteq> Some False"
  by (cases "highlightConnections_arg opts") (simp_all add: merge_options_def)

lemma Interactive_new_options:
  assumes "Interactive_new i opts d0 = Return (c, d)"
  shows "ic_options c = merge_options opts"
  using assms
  by (auto simp: Interactive_new_def Interactive_init_def Interactive_createTooltip_def Let_def
      split: option.splits if_splits)

text \<open>
  C8.  A controller whose options are the constructor's defaults overridden by an
  argument that does not switch \<^verbatim>\<open>highlightConnections\<close> off (a missing key keeps the
  default \<^verbatim>\<open>true\<close>): a click on any node returns, and afterwards every connection
  element of the controller carries the class \<^verbatim>\<open>active\<close>, whichever node was clicked.
\<close>

theorem Interactive_click_activates_all_connections:
  assumes "ic_svg c = Some svg"
    and "ic_options c = merge_options opts"
    and "highlightConnections_arg opts \<noteq> Some False"
  shows "\<exists>c' d'. Interactive_onNodeClick c d node = Return (c', d') \<and>
           ic_connections c' = ic_connections c \<and>
           (\<forall>conn \<in> set (ic_connections c). classList_contains d' conn ''active'')"
proof -
  have on: "highlightConnections (ic_options c)"
    using assms(2,3) by (simp add: merge_options_enabled)
  obtain d' where r: "Interactive_onNodeClick c d node = Return (c\<lparr>ic_selectedNode := Some node\<rparr>, d')"
    and cl: "\<forall>e k. classList_contains d' e k \<longleftrightarrow>
             (e = node \<and> k = ''selected'') \<or>
             (highlightConnections (ic_options c) \<and> e \<in> set (ic_connections c) \<and> k = ''active'') \<or>
             (classList_contains d e k \<and> \<not> (ic_selectedNode c = Some e \<and> k = ''selected''))"
    using Interactive_onNodeClick_Return [OF assms(1)] by blast
  have "\<forall>conn \<in> set (ic_connections c). classList_contains d' conn ''active''"
    using cl on by simp
  then show ?thesis
    using r by simp
qed

text \<open>The example controllers, evaluated.\<close>

lemma class_tokens_group:
  "class_tokens (Str ''interactive-tooltip-group'') = [''interactive-tooltip-group'']"
  by (simp add: class_tokens_def)

lemmas page_defs =
  graph_new_def marked_new_def graph_hovered_def default_options_def state_of_def
  Interactive_new_def Interactive_init_def Interactive_createTooltip_def Let_def
  merge_options_def getElementById_def querySelectorAll_def querySelector_def
  graph_page_def marked_page_def blank_def new_element_def setAttribute_def
  class_tokens_group addEventListener_def

lemma graph_new_ctrl:
  "fst graph_new =
     \<lparr>ic_svg = Some 10, ic_nodes = [11, 12], ic_connections = [13], ic_selectedNode = None,
      ic_tooltip = Some 100, ic_options = \<lparr>showTooltip = True, highlightConnections = True\<rparr>\<rparr>"
  by (simp add: page_defs)




theorem Interactive_click_activates_all_connections_witness:
  "ic_svg (fst graph_new) = Some 10 \<and>
   ic_options (fst graph_new) = merge_options default_options \<and>
   highlightConnections_arg default_options \<noteq> Some False \<and>
   (\<exists>c' d'. Interactive_onNodeClick (fst graph_new) (snd graph_new) 11 = Return (c', d') \<and>
      ic_connections c' = [13] \<and> classList_contains d' 13 ''active'')"
proof -
  have h1: "ic_svg (fst graph_new) = Some 10"
    by (simp add: graph_new_ctrl)
  have h2: "ic_options (fst graph_new) = merge_options default_options"
    by (simp add: graph_new_ctrl merge_options_def default_options_def)
  have h3: "highlightConnections_arg default_options \<noteq> Some False"
    by (simp add: default_options_def)
  have h4: "ic_connections (fst graph_new) = [13]"
    by (simp add: graph_new_ctrl)
  show ?thesis
    using h1 h2 h3 h4
      Interactive_click_activates_all_connections [OF h1 h2 h3, of "snd graph_new" 11]
    by auto
qed



section \<open>InteractiveDiagramController: what reset leaves alone\<close>

lemma Interactive_reset_eq:
  "Interactive_reset c d =
     (c\<lparr>ic_selectedNode := None\<rparr>,
      forEach (ic_connections c) (\<lambda>conn d. classList_remove d conn ''active'')
        (case ic_selectedNode c of
           Some sel \<Rightarrow> classList_remove d sel ''selected''
         | None \<Rightarrow> d))"
  by (cases "ic_selectedNode c") (simp_all add: Interactive_reset_def)

lemma classList_remove_keeps:
  "style (elements (classList_remove d x k) e) = style (elements d e)"
  "attributes (elements (classList_remove d x k) e) = attributes (elements d e)"
  "textContent (elements (classList_remove d x k) e) = textContent (elements d e)"
  "tagName (elements (classList_remove d x k) e) = tagName (elements d e)"
  "e \<noteq> x \<Longrightarrow> elements (classList_remove d x k) e = elements d e"
  by (simp_all add: classList_remove_def)

lemma forEach_remove_keeps:
  "style (elements (forEach xs (\<lambda>x d. classList_remove d x k) d) e) = style (elements d e)"
  "attributes (elements (forEach xs (\<lambda>x d. classList_remove d x k) d) e) = attributes (elements d e)"
  "textContent (elements (forEach xs (\<lambda>x d. classList_remove d x k) d) e) = textContent (elements d e)"
  "tagName (elements (forEach xs (\<lambda>x d. classList_remove d x k) d) e) = tagName (elements d e)"
  "e \<notin> set xs \<Longrightarrow> elements (forEach xs (\<lambda>x d. classList_remove d x k) d) e = elements d e"
  by (simp_all add: forEach_remove_elements)

text \<open>
  C10.  \<^verbatim>\<open>reset()\<close> of an interactive controller, in any state: the stored selection is
  cleared and the controller is otherwise the same; of every element, the style (so the
  opacity that shows or hides the tooltip), the attributes (so the tooltip's
  \<^verbatim>\<open>transform\<close>), the text content and the tag are unchanged; a class is lost exactly
  where it is \<^verbatim>\<open>selected\<close> on the stored selection or \<^verbatim>\<open>active\<close> on a connection, and
  none is gained; an element that is neither the stored selection nor a connection is
  untouched; the tree, the listeners, the dispatched events and the log are unchanged.
\<close>

theorem Interactive_reset_frame:
  "case Interactive_reset c d of
     (c', d') \<Rightarrow>
       c' = c\<lparr>ic_selectedNode := None\<rparr> \<and>
       (\<forall>e. style (elements d' e) = style (elements d e) \<and>
            attributes (elements d' e) = attributes (elements d e) \<and>
            textContent (elements d' e) = textContent (elements d e) \<and>
            tagName (elements d' e) = tagName (elements d e)) \<and>
       (\<forall>e k. classList_contains d' e k \<longleftrightarrow>
                classList_contains d e k \<and>
                \<not> (ic_selectedNode c = Some e \<and> k = ''selected'') \<and>
                \<not> (e \<in> set (ic_connections c) \<and> k = ''active'')) \<and>
       (\<forall>e. ic_selectedNode c \<noteq> Some e \<and> e \<notin> set (ic_connections c) \<longrightarrow>
            elements d' e = elements d e) \<and>
       descendants d' = descendants d \<and> byId d' = byId d \<and> bboxes d' = bboxes d \<and>
       listeners d' = listeners d \<and> dispatched d' = dispatched d \<and> console d' = console d"
proof -
  define d1 where "d1 = (case ic_selectedNode c of
      Some sel \<Rightarrow> classList_remove d sel ''selected'' | None \<Rightarrow> d)"
  define d' where "d' = forEach (ic_connections c) (\<lambda>conn d. classList_remove d conn ''active'') d1"
  have r: "Interactive_reset c d = (c\<lparr>ic_selectedNode := None\<rparr>, d')"
    by (simp add: Interactive_reset_eq d'_def d1_def)
  have keep1: "style (elements d1 e) = style (elements d e) \<and>
      attributes (elements d1 e) = attributes (elements d e) \<and>
      textContent (elements d1 e) = textContent (elements d e) \<and>
      tagName (elements d1 e) = tagName (elements d e)" for e
    by (simp add: d1_def classList_remove_keeps split: option.splits)
  have keep: "style (elements d' e) = style (elements d e) \<and>
      attributes (elements d' e) = attributes (elements d e) \<and>
      textContent (elements d' e) = textContent (elements d e) \<and>
      tagName (elements d' e) = tagName (elements d e)" for e
    using keep1 [of e] by (simp add: d'_def forEach_remove_keeps)
  have cls1: "classList_contains d1 e k \<longleftrightarrow>
      classList_contains d e k \<and> \<not> (ic_selectedNode c = Some e \<and> k = ''selected'')" for e k
    by (auto simp: d1_def contains_remove split: option.splits)
  have cls: "classList_contains d' e k \<longleftrightarrow>
      classList_contains d e k \<and> \<not> (ic_selectedNode c = Some e \<and> k = ''selected'') \<and>
      \<not> (e \<in> set (ic_connections c) \<and> k = ''active'')" for e k
    using cls1 [of e k] by (auto simp: d'_def contains_forEach_remove)
  have same1: "ic_selectedNode c \<noteq> Some e \<Longrightarrow> elements d1 e = elements d e" for e
    by (auto simp: d1_def classList_remove_keeps split: option.splits)
  have same: "ic_selectedNode c \<noteq> Some e \<and> e \<notin> set (ic_connections c) \<longrightarrow>
      elements d' e = elements d e" for e
    using same1 [of e] by (simp add: d'_def forEach_remove_keeps)
  have rest1: "descendants d1 = descendants d \<and> byId d1 = byId d \<and> bboxes d1 = bboxes d \<and>
      listeners d1 = listeners d \<and> dispatched d1 = dispatched d \<and> console d1 = console d"
    by (simp add: d1_def classList_remove_def split: option.splits)
  have rest: "descendants d' = descendants d \<and> byId d' = byId d \<and> bboxes d' = bboxes d \<and>
      listeners d' = listeners d \<and> dispatched d' = dispatched d \<and> console d' = console d"
    using rest1 by (simp add: d'_def forEach_remove_rest)
  show ?thesis
    using keep cls same rest by (simp add: r)
qed

text \<open>The example: the tooltip shown by a hover on node 11 stays as it is across \<^verbatim>\<open>reset()\<close>.\<close>

lemmas hover_defs =
  Interactive_onNodeHover_def Interactive_onNodeClick_def Interactive_emitEvent_def
  Interactive_highlightRelatedConnections_def hover_label_def getAttribute_def get_style_def
  set_style_def set_textContent_def classList_add_def classList_remove_def dispatchEvent_def
  classList_contains_def

lemma graph_hovered_ctrl:
  "fst graph_hovered =
     \<lparr>ic_svg = Some 10, ic_nodes = [11, 12], ic_connections = [13], ic_selectedNode = Some 11,
      ic_tooltip = Some 100, ic_options = \<lparr>showTooltip = True, highlightConnections = True\<rparr>\<rparr>"
  by (simp add: page_defs hover_defs)

lemma graph_hovered_tooltip:
  "get_style (snd graph_hovered) 100 ''opacity'' = Str ''1''"
  "get_style (snd graph_hovered) 101 ''opacity'' = Str ''1''"
  "get_style (snd graph_hovered) 102 ''opacity'' = Str ''1''"
  "getAttribute (snd graph_hovered) 100 ''transform'' = Some (Translate 100 10)"
  "textContent (elements (snd graph_hovered) 102) = ''Compressor''"
  "classList_contains (snd graph_hovered) 11 ''selected''"
  "classList_contains (snd graph_hovered) 13 ''active''"
  by (simp_all add: page_defs hover_defs)

theorem Interactive_reset_frame_witness:
  "case Interactive_reset (fst graph_hovered) (snd graph_hovered) of
     (c', d') \<Rightarrow>
       Interactive_getSelectedNode (fst graph_hovered) = Some 11 \<and>
       Interactive_getSelectedNode c' = None \<and>
       ic_tooltip c' = Some 100 \<and>
       classList_contains (snd graph_hovered) 11 ''selected'' \<and>
       \<not> classList_contains d' 11 ''selected'' \<and>
       classList_contains (snd graph_hovered) 13 ''active'' \<and>
       \<not> classList_contains d' 13 ''active'' \<and>
       get_style d' 100 ''opacity'' = Str ''1'' \<and>
       get_style d' 101 ''opacity'' = Str ''1'' \<and>
       get_style d' 102 ''opacity'' = Str ''1'' \<and>
       getAttribute d' 100 ''transform'' = Some (Translate 100 10) \<and>
       textContent (elements d' 102) = ''Compressor'' \<and>
       elements d' 100 = elements (snd graph_hovered) 100"
  using Interactive_reset_frame [of "fst graph_hovered" "snd graph_hovered"]
    graph_hovered_tooltip
  by (auto simp: graph_hovered_ctrl get_style_def getAttribute_def
      Interactive_getSelectedNode_def split: prod.splits)

text \<open>
  The tooltip of a constructed controller is neither a node nor a connection: the three
  elements are created with their own classes before the nodes and connections are
  collected by class.
\<close>

lemma Interactive_new_tooltip_apart:
  assumes "Interactive_new i opts d0 = Return (c, d)" and "ic_tooltip c = Some g"
  shows "set [g, g + 1, g + 2] \<inter> (set (ic_nodes c) \<union> set (ic_connections c)) = {}"
  using assms
  by (auto simp: Interactive_new_def Interactive_init_def Interactive_createTooltip_def Let_def
      querySelectorAll_def setAttribute_def class_tokens_group new_element_def
      split: option.splits if_splits)

section \<open>Timers\<close>

lemma find_last_handle:
  assumes "\<forall>t \<in> set pre. handle t \<noteq> h" and "handle T = h"
  shows "find (\<lambda>t. handle t = h) (pre @ [T]) = Some T"
  using assms by (induction pre) auto

lemma find_no_handle:
  assumes "\<forall>t \<in> set pre. handle t \<noteq> h"
  shows "find (\<lambda>t. handle t = h) pre = None"
  using assms by (induction pre) auto

lemma filter_last_handle:
  assumes "\<forall>t \<in> set pre. handle t \<noteq> h" and "handle T = h"
  shows "filter (\<lambda>t. handle t \<noteq> h) (pre @ [T]) = pre"
  using assms by (induction pre) auto

lemma filter_no_handle:
  assumes "\<forall>t \<in> set pre. handle t \<noteq> h"
  shows "filter (\<lambda>t. handle t \<noteq> h) pre = pre"
  using assms by (induction pre) auto

lemma map_last_handle:
  assumes "\<forall>t \<in> set pre. handle t \<noteq> h" and "handle T = h"
  shows "map (\<lambda>t. if handle t = h then f t else t) (pre @ [T]) = pre @ [f T]"
  using assms by (induction pre) auto

lemma map_no_handle:
  assumes "\<forall>t \<in> set pre. handle t \<noteq> h"
  shows "map (\<lambda>t. if handle t = h then f t else t) pre = pre"
  using assms by (induction pre) auto

lemma issued_fresh:
  assumes "issued s"
  shows "\<forall>t \<in> set (timers s). handle t \<noteq> Suc (timerHandles s)"
  using assms by (auto simp: issued_def list_all_iff)

section \<open>FlowchartController: playback\<close>

lemma Flowchart_fire_step:
  assumes "timers s = pre @ [\<lparr>handle = h, due = t, period = Some p, callback = FlowchartStep k\<rparr>]"
    and "\<forall>u \<in> set pre. handle u \<noteq> h" and "k < length (fc_nodes c)" and "now s \<le> t"
  shows "Flowchart_fire h c d s =
           (fst (Flowchart_highlightStep c d k), snd (Flowchart_highlightStep c d k),
            s\<lparr>now := t,
              timers := pre @ [\<lparr>handle = h, due = t + p, period = Some p,
                                 callback = FlowchartStep (Suc k)\<rparr>]\<rparr>)"
  using assms
  by (simp add: Flowchart_fire_def find_last_handle Flowchart_step_def begin_timer_def
      again_def map_last_handle map_no_handle max_def split: prod.splits)

lemma Flowchart_fire_stop:
  assumes "timers s = pre @ [\<lparr>handle = h, due = t, period = Some p, callback = FlowchartStep k\<rparr>]"
    and "\<forall>u \<in> set pre. handle u \<noteq> h" and "length (fc_nodes c) \<le> k" and "now s \<le> t"
  shows "Flowchart_fire h c d s = (c, d, s\<lparr>now := t, timers := pre\<rparr>)"
  using assms
  by (simp add: Flowchart_fire_def find_last_handle Flowchart_step_def begin_timer_def
      again_def clearInterval_def filter_last_handle map_no_handle max_def)

lemma Flowchart_fire_idle:
  assumes "\<forall>u \<in> set (timers s). handle u \<noteq> h"
  shows "Flowchart_fire h c d s = (c, d, s)"
  using assms by (simp add: Flowchart_fire_def find_no_handle)

lemma Flowchart_highlightStep_nodes [simp]:
  "fc_nodes (fst (Flowchart_highlightStep c d k)) = fc_nodes c"
  "fc_currentStep (fst (Flowchart_highlightStep c d k)) = k"
  by (simp_all add: Flowchart_highlightStep_def Let_def)

lemma contains_forEach_remove2:
  "classList_contains
     (forEach xs (\<lambda>x d. classList_remove (classList_remove d x a) x b) d) e k \<longleftrightarrow>
   classList_contains d e k \<and> \<not> (e \<in> set xs \<and> (k = a \<or> k = b))"
  by (induction xs arbitrary: d) (auto simp: contains_remove)

lemma Flowchart_highlightStep_classes:
  assumes "k < length (fc_nodes c)" and "e \<in> set (fc_nodes c)"
  shows "classList_contains (snd (Flowchart_highlightStep c d k)) e ''selected'' \<longleftrightarrow>
           e = fc_nodes c ! k"
    and "classList_contains (snd (Flowchart_highlightStep c d k)) e ''node-highlighted'' \<longleftrightarrow>
           e = fc_nodes c ! k"
  using assms
  by (auto simp: Flowchart_highlightStep_def Let_def at_def contains_add contains_forEach_remove2)

text \<open>The controller and document after the first \<open>k\<close> highlighting ticks.\<close>

lemma Flowchart_play_running:
  assumes "issued s" and "k \<le> length (fc_nodes c)"
  shows "Flowchart_play k c d s =
           (fst (fold (\<lambda>i x. Flowchart_highlightStep (fst x) (snd x) i) [0..<k] (c, d)),
            snd (fold (\<lambda>i x. Flowchart_highlightStep (fst x) (snd x) i) [0..<k] (c, d)),
            s\<lparr>now := now s + 1000 * k, timerHandles := Suc (timerHandles s),
              timers := timers s @
                [\<lparr>handle = Suc (timerHandles s), due = now s + 1000 * Suc k,
                  period = Some 1000, callback = FlowchartStep k\<rparr>]\<rparr>) \<and>
         fc_nodes (fst (fold (\<lambda>i x. Flowchart_highlightStep (fst x) (snd x) i) [0..<k] (c, d))) =
           fc_nodes c"
  using assms(2)
proof (induction k)
  case 0
  show ?case
    by (simp add: Flowchart_play_def Flowchart_playAnimation_def setInterval_def Let_def)
next
  case (Suc k)
  let ?x = "fold (\<lambda>i x. Flowchart_highlightStep (fst x) (snd x) i) [0..<k] (c, d)"
  let ?s = "s\<lparr>now := now s + 1000 * k, timerHandles := Suc (timerHandles s),
              timers := timers s @
                [\<lparr>handle = Suc (timerHandles s), due = now s + 1000 * Suc k,
                  period = Some 1000, callback = FlowchartStep k\<rparr>]\<rparr>"
  have ih: "Flowchart_play k c d s = (fst ?x, snd ?x, ?s)" and nodes: "fc_nodes (fst ?x) = fc_nodes c"
    using Suc by simp_all
  have run: "Flowchart_play (Suc k) c d s = Flowchart_fire (Suc (timerHandles s)) (fst ?x) (snd ?x) ?s"
    using ih by (simp add: Flowchart_play_def Flowchart_playAnimation_def setInterval_def Let_def)
  have "Flowchart_fire (Suc (timerHandles s)) (fst ?x) (snd ?x) ?s =
      (fst (Flowchart_highlightStep (fst ?x) (snd ?x) k),
       snd (Flowchart_highlightStep (fst ?x) (snd ?x) k),
       ?s\<lparr>now := now s + 1000 * Suc k,
          timers := timers s @ [\<lparr>handle = Suc (timerHandles s), due = now s + 1000 * Suc k + 1000,
                                 period = Some 1000, callback = FlowchartStep (Suc k)\<rparr>]\<rparr>)"
    by (rule Flowchart_fire_step) (use Suc.prems nodes issued_fresh [OF assms(1)] in simp_all)
  then show ?case
    using run nodes by simp
qed


lemma Flowchart_play_stopped:
  assumes "issued s" and "length (fc_nodes c) < m"
  shows "\<exists>s'. Flowchart_play m c d s =
           (fst (fold (\<lambda>i x. Flowchart_highlightStep (fst x) (snd x) i)
                   [0..<length (fc_nodes c)] (c, d)),
            snd (fold (\<lambda>i x. Flowchart_highlightStep (fst x) (snd x) i)
                   [0..<length (fc_nodes c)] (c, d)), s') \<and>
           timers s' = timers s \<and> now s' = now s + 1000 * Suc (length (fc_nodes c))"
proof -
  let ?N = "length (fc_nodes c)"
  let ?x = "fold (\<lambda>i x. Flowchart_highlightStep (fst x) (snd x) i) [0..<?N] (c, d)"
  let ?h = "Suc (timerHandles s)"
  have fresh: "\<forall>t \<in> set (timers s). handle t \<noteq> ?h"
    by (rule issued_fresh [OF assms(1)])
  have "Suc ?N \<le> m"
    using assms(2) by simp
  then show ?thesis
  proof (induction m rule: nat_induct_at_least)
    case base
    let ?s = "s\<lparr>now := now s + 1000 * ?N, timerHandles := ?h,
              timers := timers s @
                [\<lparr>handle = ?h, due = now s + 1000 * Suc ?N,
                  period = Some 1000, callback = FlowchartStep ?N\<rparr>]\<rparr>"
    have run: "Flowchart_play ?N c d s = (fst ?x, snd ?x, ?s)" and nodes: "fc_nodes (fst ?x) = fc_nodes c"
      using Flowchart_play_running [OF assms(1), of ?N c d] by simp_all
    have "Flowchart_fire ?h (fst ?x) (snd ?x) ?s =
        (fst ?x, snd ?x, ?s\<lparr>now := now s + 1000 * Suc ?N, timers := timers s\<rparr>)"
      using Flowchart_fire_stop [of ?s "timers s" ?h "now s + 1000 * Suc ?N" 1000 ?N "fst ?x" "snd ?x"]
        nodes fresh by simp
    then show ?case
      using run by (simp add: Flowchart_play_def Flowchart_playAnimation_def setInterval_def Let_def)
  next
    case (Suc m)
    then obtain s' where run: "Flowchart_play m c d s = (fst ?x, snd ?x, s')"
      and t: "timers s' = timers s" and n: "now s' = now s + 1000 * Suc ?N"
      by blast
    have "Flowchart_fire ?h (fst ?x) (snd ?x) s' = (fst ?x, snd ?x, s')"
      by (rule Flowchart_fire_idle) (use fresh t in simp)
    then show ?case
      using run t n
      by (simp add: Flowchart_play_def Flowchart_playAnimation_def setInterval_def Let_def)
  qed
qed

text \<open>
  C4.  After \<^verbatim>\<open>playAnimation()\<close> at time \<open>now s\<close>, with \<open>n\<close> the number of nodes: for
  every \<open>k < n\<close>, tick \<open>k + 1\<close> of the interval comes at time \<open>now s + 1000 * (k + 1)\<close>
  and leaves node \<open>k\<close> as the one node that carries \<^verbatim>\<open>selected\<close> and
  \<^verbatim>\<open>node-highlighted\<close>, with the interval still pending, due 1000 later; and after more
  than \<open>n\<close> ticks the interval is gone (the timers are those from before the call, the
  last tick having come at \<open>now s + 1000 * (n + 1)\<close>), and of the nodes exactly the last
  one carries the two classes.
\<close>

theorem Flowchart_playAnimation_steps:
  assumes "issued s"
  shows "(\<forall>k < length (fc_nodes c).
            case Flowchart_play (Suc k) c d s of
              (ck, dk, sk) \<Rightarrow>
                now sk = now s + 1000 * Suc k \<and>
                fc_currentStep ck = k \<and> fc_nodes ck = fc_nodes c \<and>
                (\<forall>e \<in> set (fc_nodes c).
                   (classList_contains dk e ''selected'' \<longleftrightarrow> e = fc_nodes c ! k) \<and>
                   (classList_contains dk e ''node-highlighted'' \<longleftrightarrow> e = fc_nodes c ! k)) \<and>
                timers sk = timers s @
                  [\<lparr>handle = Suc (timerHandles s), due = now s + 1000 * Suc (Suc k),
                    period = Some 1000, callback = FlowchartStep (Suc k)\<rparr>]) \<and>
         (\<forall>m > length (fc_nodes c).
            case Flowchart_play m c d s of
              (c', d', s') \<Rightarrow>
                timers s' = timers s \<and>
                now s' = now s + 1000 * Suc (length (fc_nodes c)) \<and>
                fc_nodes c' = fc_nodes c \<and>
                (\<forall>e \<in> set (fc_nodes c).
                   (classList_contains d' e ''selected'' \<longleftrightarrow> e = last (fc_nodes c)) \<and>
                   (classList_contains d' e ''node-highlighted'' \<longleftrightarrow> e = last (fc_nodes c))))"
proof -
  let ?X = "\<lambda>k. fold (\<lambda>i x. Flowchart_highlightStep (fst x) (snd x) i) [0..<k] (c, d)"
  have nodes: "fc_nodes (fst (?X k)) = fc_nodes c" if "k \<le> length (fc_nodes c)" for k
    using Flowchart_play_running [OF assms that, of d] by simp
  have step: "?X (Suc k) = Flowchart_highlightStep (fst (?X k)) (snd (?X k)) k" for k
    by simp
  have classes: "(classList_contains (snd (?X (Suc k))) e ''selected'' \<longleftrightarrow> e = fc_nodes c ! k) \<and>
      (classList_contains (snd (?X (Suc k))) e ''node-highlighted'' \<longleftrightarrow> e = fc_nodes c ! k)"
    if "k < length (fc_nodes c)" and "e \<in> set (fc_nodes c)" for k e
    unfolding step
    using Flowchart_highlightStep_classes [of k "fst (?X k)" e "snd (?X k)"] nodes [of k] that
    by simp
  have current: "fc_currentStep (fst (?X (Suc k))) = k" for k
    unfolding step by simp
  have running: "case Flowchart_play (Suc k) c d s of
      (ck, dk, sk) \<Rightarrow>
        now sk = now s + 1000 * Suc k \<and>
        fc_currentStep ck = k \<and> fc_nodes ck = fc_nodes c \<and>
        (\<forall>e \<in> set (fc_nodes c).
           (classList_contains dk e ''selected'' \<longleftrightarrow> e = fc_nodes c ! k) \<and>
           (classList_contains dk e ''node-highlighted'' \<longleftrightarrow> e = fc_nodes c ! k)) \<and>
        timers sk = timers s @
          [\<lparr>handle = Suc (timerHandles s), due = now s + 1000 * Suc (Suc k),
            period = Some 1000, callback = FlowchartStep (Suc k)\<rparr>]"
    if k: "k < length (fc_nodes c)" for k
  proof -
    have le: "Suc k \<le> length (fc_nodes c)"
      using k by simp
    show ?thesis
      using Flowchart_play_running [OF assms le, of d] classes [OF k] current [of k]
      by (simp del: upt_Suc)
  qed
  have stopped: "case Flowchart_play m c d s of
      (c', d', s') \<Rightarrow>
        timers s' = timers s \<and>
        now s' = now s + 1000 * Suc (length (fc_nodes c)) \<and>
        fc_nodes c' = fc_nodes c \<and>
        (\<forall>e \<in> set (fc_nodes c).
           (classList_contains d' e ''selected'' \<longleftrightarrow> e = last (fc_nodes c)) \<and>
           (classList_contains d' e ''node-highlighted'' \<longleftrightarrow> e = last (fc_nodes c)))"
    if m: "length (fc_nodes c) < m" for m
  proof (cases "fc_nodes c = []")
    case True
    then show ?thesis
      using Flowchart_play_stopped [OF assms m, of d] by fastforce
  next
    case False
    then obtain n where n: "length (fc_nodes c) = Suc n"
      by (cases "fc_nodes c") auto
    have l: "last (fc_nodes c) = fc_nodes c ! n"
      using False n by (simp add: last_conv_nth)
    have less: "n < length (fc_nodes c)"
      using n by simp
    have xn: "?X (length (fc_nodes c)) = ?X (Suc n)"
      by (simp only: n)
    have cl: "(classList_contains (snd (?X (length (fc_nodes c)))) e ''selected'' \<longleftrightarrow>
           e = last (fc_nodes c)) \<and>
        (classList_contains (snd (?X (length (fc_nodes c)))) e ''node-highlighted'' \<longleftrightarrow>
           e = last (fc_nodes c))" if "e \<in> set (fc_nodes c)" for e
      unfolding xn l using classes [OF less that] .
    obtain s' where p: "Flowchart_play m c d s =
        (fst (?X (length (fc_nodes c))), snd (?X (length (fc_nodes c))), s')"
      and t: "timers s' = timers s" and nw: "now s' = now s + 1000 * Suc (length (fc_nodes c))"
      using Flowchart_play_stopped [OF assms m, of d] by blast
    have "fc_nodes (fst (?X (length (fc_nodes c)))) = fc_nodes c"
      by (rule nodes) simp
    then show ?thesis
      unfolding p using t nw cl by simp
  qed
  show ?thesis
    using running stopped by (intro conjI allI impI)
qed


theorem Flowchart_playAnimation_steps_witness:
  "issued idle \<and>
   fc_nodes (fst (Flowchart_new ''flow'' flow_page)) = [11, 12, 13] \<and>
   (case Flowchart_play 2 (fst (Flowchart_new ''flow'' flow_page))
           (snd (Flowchart_new ''flow'' flow_page)) idle of
      (ck, dk, sk) \<Rightarrow>
        now sk = 2000 \<and> fc_currentStep ck = 1 \<and> length (timers sk) = 1 \<and>
        \<not> classList_contains dk 11 ''selected'' \<and> classList_contains dk 12 ''selected'' \<and>
        \<not> classList_contains dk 13 ''selected'' \<and>
        classList_contains dk 12 ''node-highlighted'') \<and>
   (case Flowchart_play 4 (fst (Flowchart_new ''flow'' flow_page))
           (snd (Flowchart_new ''flow'' flow_page)) idle of
      (c', d', s') \<Rightarrow>
        now s' = 4000 \<and> timers s' = [] \<and>
        \<not> classList_contains d' 11 ''selected'' \<and> \<not> classList_contains d' 12 ''selected'' \<and>
        classList_contains d' 13 ''selected'' \<and>
        \<not> classList_contains d' 11 ''node-highlighted'' \<and>
        \<not> classList_contains d' 12 ''node-highlighted'' \<and>
        classList_contains d' 13 ''node-highlighted'')"
proof -
  let ?c = "fst (Flowchart_new ''flow'' flow_page)"
  let ?d = "snd (Flowchart_new ''flow'' flow_page)"
  have i: "issued idle"
    by (simp add: issued_def idle_def)
  have ns: "fc_nodes ?c = [11, 12, 13]"
    by (simp add: Flowchart_new_def Flowchart_init_def getElementById_def querySelectorAll_def
        flow_page_def blank_def new_element_def Let_def)
  have idle: "now idle = 0" "timers idle = []"
    by (simp_all add: idle_def)
  note T = Flowchart_playAnimation_steps [OF i, of ?c ?d]
  have "1 < length (fc_nodes ?c)"
    by (simp add: ns)
  from T [THEN conjunct1, rule_format, OF this]
  have a: "case Flowchart_play 2 ?c ?d idle of
      (ck, dk, sk) \<Rightarrow>
        now sk = 2000 \<and> fc_currentStep ck = 1 \<and> length (timers sk) = 1 \<and>
        \<not> classList_contains dk 11 ''selected'' \<and> classList_contains dk 12 ''selected'' \<and>
        \<not> classList_contains dk 13 ''selected'' \<and>
        classList_contains dk 12 ''node-highlighted''"
    by (simp add: ns idle numeral_2_eq_2 [symmetric] split: prod.splits)
  have "length (fc_nodes ?c) < 4"
    by (simp add: ns)
  from T [THEN conjunct2, rule_format, OF this]
  have b: "case Flowchart_play 4 ?c ?d idle of
      (c', d', s') \<Rightarrow>
        now s' = 4000 \<and> timers s' = [] \<and>
        \<not> classList_contains d' 11 ''selected'' \<and> \<not> classList_contains d' 12 ''selected'' \<and>
        classList_contains d' 13 ''selected'' \<and>
        \<not> classList_contains d' 11 ''node-highlighted'' \<and>
        \<not> classList_contains d' 12 ''node-highlighted'' \<and>
        classList_contains d' 13 ''node-highlighted''"
    by (simp add: ns idle split: prod.splits)
  show ?thesis
    using i ns a b by simp
qed

section \<open>SequenceController: playback\<close>

lemma fold_opacity_other:
  assumes "e \<notin> set xs"
  shows "elements (fold (\<lambda>(i, m) d. set_style d m ''opacity'' (g i)) (enumerate n xs) d) e =
           elements d e"
  using assms by (induction xs arbitrary: n d) (auto simp: set_style_def)

lemma fold_opacity_nth:
  assumes "distinct xs" and "j < length xs"
  shows "get_style (fold (\<lambda>(i, m) d. set_style d m ''opacity'' (g i)) (enumerate n xs) d)
           (xs ! j) ''opacity'' = g (n + j)"
  using assms
proof (induction xs arbitrary: n d j)
  case Nil
  then show ?case by simp
next
  case (Cons x xs)
  show ?case
  proof (cases j)
    case 0
    have "x \<notin> set xs"
      using Cons.prems(1) by simp
    then show ?thesis
      using 0 by (simp add: get_style_def fold_opacity_other) (simp add: set_style_def)
  next
    case (Suc j')
    then show ?thesis
      using Cons.prems Cons.IH [of j' "Suc n"] by simp
  qed
qed

lemma Sequence_fire_step:
  assumes "timers s = pre @ [\<lparr>handle = h, due = t, period = Some p, callback = SequenceStep k\<rparr>]"
    and "\<forall>u \<in> set pre. handle u \<noteq> h" and "k < length (sq_messages c)" and "now s \<le> t"
  shows "Sequence_fire h c d s =
           (c, fold (\<lambda>(i, msg) d. set_style d msg ''opacity''
                                    (if i = k then Str ''1'' else Str ''0.3''))
                 (enumerate 0 (sq_messages c)) d,
            s\<lparr>now := t,
              timers := pre @ [\<lparr>handle = h, due = t + p, period = Some p,
                                 callback = SequenceStep (Suc k)\<rparr>]\<rparr>)"
  using assms
  by (simp add: Sequence_fire_def find_last_handle Sequence_step_def begin_timer_def
      again_def map_last_handle map_no_handle max_def Let_def)

lemma Sequence_fire_stop:
  assumes "timers s = pre @ [\<lparr>handle = h, due = t, period = Some p, callback = SequenceStep k\<rparr>]"
    and "\<forall>u \<in> set pre. handle u \<noteq> h" and "length (sq_messages c) \<le> k" and "now s \<le> t"
  shows "Sequence_fire h c d s = (c, d, s\<lparr>now := t, timers := pre\<rparr>)"
  using assms
  by (simp add: Sequence_fire_def find_last_handle Sequence_step_def begin_timer_def
      again_def clearInterval_def filter_last_handle map_no_handle max_def)

lemma Sequence_fire_idle:
  assumes "\<forall>u \<in> set (timers s). handle u \<noteq> h"
  shows "Sequence_fire h c d s = (c, d, s)"
  using assms by (simp add: Sequence_fire_def find_no_handle)

text \<open>The document after the first \<open>k\<close> ticks of the playback.\<close>

lemma Sequence_play_running:
  assumes "issued s" and "k \<le> length (sq_messages c)"
  shows "Sequence_play k c d s =
           (c,
            fold (\<lambda>k d. fold (\<lambda>(i, msg) d. set_style d msg ''opacity''
                                              (if i = k then Str ''1'' else Str ''0.3''))
                           (enumerate 0 (sq_messages c)) d) [0..<k] d,
            s\<lparr>now := now s + 800 * k, timerHandles := Suc (timerHandles s),
              timers := timers s @
                [\<lparr>handle = Suc (timerHandles s), due = now s + 800 * Suc k,
                  period = Some 800, callback = SequenceStep k\<rparr>]\<rparr>)"
  using assms(2)
proof (induction k)
  case 0
  show ?case
    by (simp add: Sequence_play_def Sequence_playSequence_def setInterval_def Let_def)
next
  case (Suc k)
  let ?x = "fold (\<lambda>k d. fold (\<lambda>(i, msg) d. set_style d msg ''opacity''
                                              (if i = k then Str ''1'' else Str ''0.3''))
                           (enumerate 0 (sq_messages c)) d) [0..<k] d"
  let ?s = "s\<lparr>now := now s + 800 * k, timerHandles := Suc (timerHandles s),
              timers := timers s @
                [\<lparr>handle = Suc (timerHandles s), due = now s + 800 * Suc k,
                  period = Some 800, callback = SequenceStep k\<rparr>]\<rparr>"
  have ih: "Sequence_play k c d s = (c, ?x, ?s)"
    using Suc by simp
  have run: "Sequence_play (Suc k) c d s = Sequence_fire (Suc (timerHandles s)) c ?x ?s"
    using ih by (simp add: Sequence_play_def Sequence_playSequence_def setInterval_def Let_def)
  have "Sequence_fire (Suc (timerHandles s)) c ?x ?s =
      (c, fold (\<lambda>(i, msg) d. set_style d msg ''opacity''
                                    (if i = k then Str ''1'' else Str ''0.3''))
                 (enumerate 0 (sq_messages c)) ?x,
       ?s\<lparr>now := now s + 800 * Suc k,
          timers := timers s @ [\<lparr>handle = Suc (timerHandles s), due = now s + 800 * Suc k + 800,
                                 period = Some 800, callback = SequenceStep (Suc k)\<rparr>]\<rparr>)"
    using Sequence_fire_step [of ?s "timers s" "Suc (timerHandles s)" "now s + 800 * Suc k" 800 k c ?x]
      Suc.prems issued_fresh [OF assms(1)] by simp
  then show ?case
    using run by simp
qed

lemma Sequence_play_stopped:
  assumes "issued s" and "length (sq_messages c) < m"
  shows "\<exists>s'. Sequence_play m c d s =
           (c,
            fold (\<lambda>k d. fold (\<lambda>(i, msg) d. set_style d msg ''opacity''
                                              (if i = k then Str ''1'' else Str ''0.3''))
                           (enumerate 0 (sq_messages c)) d) [0..<length (sq_messages c)] d,
            s') \<and>
           timers s' = timers s \<and> now s' = now s + 800 * Suc (length (sq_messages c))"
proof -
  let ?N = "length (sq_messages c)"
  let ?x = "fold (\<lambda>k d. fold (\<lambda>(i, msg) d. set_style d msg ''opacity''
                                              (if i = k then Str ''1'' else Str ''0.3''))
                           (enumerate 0 (sq_messages c)) d) [0..<?N] d"
  let ?h = "Suc (timerHandles s)"
  have fresh: "\<forall>t \<in> set (timers s). handle t \<noteq> ?h"
    by (rule issued_fresh [OF assms(1)])
  have "Suc ?N \<le> m"
    using assms(2) by simp
  then show ?thesis
  proof (induction m rule: nat_induct_at_least)
    case base
    let ?s = "s\<lparr>now := now s + 800 * ?N, timerHandles := ?h,
              timers := timers s @
                [\<lparr>handle = ?h, due = now s + 800 * Suc ?N,
                  period = Some 800, callback = SequenceStep ?N\<rparr>]\<rparr>"
    have run: "Sequence_play ?N c d s = (c, ?x, ?s)"
      using Sequence_play_running [OF assms(1), of ?N c d] by simp
    have "Sequence_fire ?h c ?x ?s = (c, ?x, ?s\<lparr>now := now s + 800 * Suc ?N, timers := timers s\<rparr>)"
      using Sequence_fire_stop [of ?s "timers s" ?h "now s + 800 * Suc ?N" 800 ?N c ?x] fresh
      by simp
    then show ?case
      using run by (simp add: Sequence_play_def Sequence_playSequence_def setInterval_def Let_def)
  next
    case (Suc m)
    then obtain s' where run: "Sequence_play m c d s = (c, ?x, s')"
      and t: "timers s' = timers s" and n: "now s' = now s + 800 * Suc ?N"
      by blast
    have "Sequence_fire ?h c ?x s' = (c, ?x, s')"
      by (rule Sequence_fire_idle) (use fresh t in simp)
    then show ?case
      using run t n
      by (simp add: Sequence_play_def Sequence_playSequence_def setInterval_def Let_def)
  qed
qed

lemma Sequence_reset_opacity:
  assumes "e \<in> set (sq_messages c)"
  shows "get_style (snd (Sequence_reset c d)) e ''opacity'' = Str ''1''"
proof -
  have "(\<lambda>msg d. set_style d msg ''opacity'' (Str ''1'')) =
        (\<lambda>msg. upd_elem msg (\<lambda>x. x\<lparr>style := (style x)(''opacity'' := Str ''1'')\<rparr>))"
    by (simp add: set_style_def fun_eq_iff)
  then show ?thesis
    using assms by (simp add: Sequence_reset_def get_style_def forEach_upd_elem_elements)
qed


text \<open>
  C5, as stated, fails between the call and the first tick: \<^verbatim>\<open>playSequence()\<close> only
  registers the interval, so right after the call over \<open>seq_page\<close>, with the playback
  pending, no message has opacity 1.
\<close>

theorem Sequence_playSequence_none_lit:
  "case Sequence_play 0 (fst (Sequence_new ''seq'' seq_page))
          (snd (Sequence_new ''seq'' seq_page)) idle of
     (c, d, s) \<Rightarrow>
       sq_messages c = [11, 12] \<and> length (timers s) = 1 \<and> lit c d = [] \<and> dimmed c d = []"
  by (simp add: Sequence_play_def Sequence_playSequence_def setInterval_def Let_def
      Sequence_new_def Sequence_init_def getElementById_def querySelectorAll_def
      seq_page_def blank_def new_element_def idle_def lit_def dimmed_def get_style_def
      addEventListener_def)

text \<open>
  C5, amended.  Let the messages be distinct elements (as \<^verbatim>\<open>querySelectorAll\<close> returns
  them), \<open>n\<close> their number, and \<^verbatim>\<open>playSequence()\<close> be called at time \<open>now s\<close>.  From the
  first tick on: for every \<open>k < n\<close>, tick \<open>k + 1\<close> comes at \<open>now s + 800 * (k + 1)\<close> and
  leaves message \<open>k\<close> at opacity 1 and every other message at 0.3, the interval still
  pending; after more than \<open>n\<close> ticks the interval is gone, the last message is the one
  at opacity 1 and the others are at 0.3, and \<^verbatim>\<open>reset()\<close> then puts every message at
  opacity 1.
\<close>

theorem Sequence_playSequence_steps:
  assumes "issued s" and "distinct (sq_messages c)"
  shows "(\<forall>k < length (sq_messages c).
            case Sequence_play (Suc k) c d s of
              (ck, dk, sk) \<Rightarrow>
                ck = c \<and> now sk = now s + 800 * Suc k \<and>
                (\<forall>j < length (sq_messages c).
                   get_style dk (sq_messages c ! j) ''opacity'' =
                     (if j = k then Str ''1'' else Str ''0.3'')) \<and>
                timers sk = timers s @
                  [\<lparr>handle = Suc (timerHandles s), due = now s + 800 * Suc (Suc k),
                    period = Some 800, callback = SequenceStep (Suc k)\<rparr>]) \<and>
         (\<forall>m > length (sq_messages c).
            case Sequence_play m c d s of
              (c', d', s') \<Rightarrow>
                c' = c \<and> timers s' = timers s \<and>
                now s' = now s + 800 * Suc (length (sq_messages c)) \<and>
                (\<forall>j < length (sq_messages c).
                   get_style d' (sq_messages c ! j) ''opacity'' =
                     (if Suc j = length (sq_messages c) then Str ''1'' else Str ''0.3'')) \<and>
                (\<forall>e \<in> set (sq_messages c).
                   get_style (snd (Sequence_reset c' d')) e ''opacity'' = Str ''1''))"
proof -
  let ?tick = "\<lambda>k d. fold (\<lambda>(i, msg) d. set_style d msg ''opacity''
                                            (if i = k then Str ''1'' else Str ''0.3''))
                         (enumerate 0 (sq_messages c)) d"
  let ?X = "\<lambda>k. fold ?tick [0..<k] d"
  have step: "?X (Suc k) = ?tick k (?X k)" for k
    by simp
  have opac: "get_style (?X (Suc k)) (sq_messages c ! j) ''opacity'' =
      (if j = k then Str ''1'' else Str ''0.3'')" if "j < length (sq_messages c)" for k j
    unfolding step
    using fold_opacity_nth [OF assms(2) that,
        where g = "\<lambda>i. if i = k then Str ''1'' else Str ''0.3''" and n = 0 and d = "?X k"]
    by simp
  have running: "case Sequence_play (Suc k) c d s of
      (ck, dk, sk) \<Rightarrow>
        ck = c \<and> now sk = now s + 800 * Suc k \<and>
        (\<forall>j < length (sq_messages c).
           get_style dk (sq_messages c ! j) ''opacity'' =
             (if j = k then Str ''1'' else Str ''0.3'')) \<and>
        timers sk = timers s @
          [\<lparr>handle = Suc (timerHandles s), due = now s + 800 * Suc (Suc k),
            period = Some 800, callback = SequenceStep (Suc k)\<rparr>]"
    if k: "k < length (sq_messages c)" for k
  proof -
    have le: "Suc k \<le> length (sq_messages c)"
      using k by simp
    show ?thesis
      unfolding Sequence_play_running [OF assms(1) le, of d]
      using opac [of _ k] by (simp del: upt_Suc)
  qed
  have stopped: "case Sequence_play m c d s of
      (c', d', s') \<Rightarrow>
        c' = c \<and> timers s' = timers s \<and>
        now s' = now s + 800 * Suc (length (sq_messages c)) \<and>
        (\<forall>j < length (sq_messages c).
           get_style d' (sq_messages c ! j) ''opacity'' =
             (if Suc j = length (sq_messages c) then Str ''1'' else Str ''0.3'')) \<and>
        (\<forall>e \<in> set (sq_messages c).
           get_style (snd (Sequence_reset c' d')) e ''opacity'' = Str ''1'')"
    if m: "length (sq_messages c) < m" for m
  proof -
    obtain s' where p: "Sequence_play m c d s = (c, ?X (length (sq_messages c)), s')"
      and t: "timers s' = timers s" and nw: "now s' = now s + 800 * Suc (length (sq_messages c))"
      using Sequence_play_stopped [OF assms(1) m, of d] by blast
    have last: "get_style (?X (length (sq_messages c))) (sq_messages c ! j) ''opacity'' =
        (if Suc j = length (sq_messages c) then Str ''1'' else Str ''0.3'')"
      if j: "j < length (sq_messages c)" for j
    proof -
      obtain n where n: "length (sq_messages c) = Suc n"
        using j by (cases "length (sq_messages c)") auto
      have xn: "?X (length (sq_messages c)) = ?X (Suc n)"
        by (simp only: n)
      show ?thesis
        unfolding xn using opac [OF j, of n] n by simp
    qed
    show ?thesis
      unfolding p using t nw last Sequence_reset_opacity [of _ c] by simp
  qed
  show ?thesis
    using running stopped by (intro conjI allI impI)
qed

theorem Sequence_playSequence_steps_witness:
  "issued idle \<and> distinct (sq_messages (fst (Sequence_new ''seq'' seq_page))) \<and>
   sq_messages (fst (Sequence_new ''seq'' seq_page)) = [11, 12] \<and>
   (case Sequence_play 1 (fst (Sequence_new ''seq'' seq_page))
           (snd (Sequence_new ''seq'' seq_page)) idle of
      (ck, dk, sk) \<Rightarrow>
        now sk = 800 \<and> length (timers sk) = 1 \<and>
        get_style dk 11 ''opacity'' = Str ''1'' \<and> get_style dk 12 ''opacity'' = Str ''0.3'') \<and>
   (case Sequence_play 3 (fst (Sequence_new ''seq'' seq_page))
           (snd (Sequence_new ''seq'' seq_page)) idle of
      (c', d', s') \<Rightarrow>
        now s' = 2400 \<and> timers s' = [] \<and>
        get_style d' 11 ''opacity'' = Str ''0.3'' \<and> get_style d' 12 ''opacity'' = Str ''1'' \<and>
        get_style (snd (Sequence_reset c' d')) 11 ''opacity'' = Str ''1'' \<and>
        get_style (snd (Sequence_reset c' d')) 12 ''opacity'' = Str ''1'')"
proof -
  let ?c = "fst (Sequence_new ''seq'' seq_page)"
  let ?d = "snd (Sequence_new ''seq'' seq_page)"
  have i: "issued idle"
    by (simp add: issued_def idle_def)
  have ms: "sq_messages ?c = [11, 12]"
    by (simp add: Sequence_new_def Sequence_init_def getElementById_def querySelectorAll_def
        seq_page_def blank_def new_element_def Let_def)
  have dist: "distinct (sq_messages ?c)"
    by (simp add: ms)
  have idle: "now idle = 0" "timers idle = []"
    by (simp_all add: idle_def)
  have all2: "(\<forall>j<Suc (Suc 0). P j) \<longleftrightarrow> P 0 \<and> P (Suc 0)" for P :: "nat \<Rightarrow> bool"
    by (auto simp: less_Suc_eq)
  note T = Sequence_playSequence_steps [OF i dist, of ?d]
  have "0 < length (sq_messages ?c)"
    by (simp add: ms)
  from T [THEN conjunct1, rule_format, OF this]
  have a: "case Sequence_play 1 ?c ?d idle of
      (ck, dk, sk) \<Rightarrow>
        now sk = 800 \<and> length (timers sk) = 1 \<and>
        get_style dk 11 ''opacity'' = Str ''1'' \<and> get_style dk 12 ''opacity'' = Str ''0.3''"
    by (simp add: ms idle all2 split: prod.splits)
  have "length (sq_messages ?c) < 3"
    by (simp add: ms)
  from T [THEN conjunct2, rule_format, OF this]
  have b: "case Sequence_play 3 ?c ?d idle of
      (c', d', s') \<Rightarrow>
        now s' = 2400 \<and> timers s' = [] \<and>
        get_style d' 11 ''opacity'' = Str ''0.3'' \<and> get_style d' 12 ''opacity'' = Str ''1'' \<and>
        get_style (snd (Sequence_reset c' d')) 11 ''opacity'' = Str ''1'' \<and>
        get_style (snd (Sequence_reset c' d')) 12 ''opacity'' = Str ''1''"
    by (simp add: ms idle all2 split: prod.splits)
  show ?thesis
    using i dist ms a b by simp
qed

section \<open>StateDiagramController: the scripted cycle\<close>

lemma State_visit_keeps:
  "st_svg (fst (State_visit ids k c d)) = st_svg c"
  "st_states (fst (State_visit ids k c d)) = st_states c"
  by (auto simp: State_visit_def State_transitionTo_def Let_def split: option.splits)

lemma State_cycle_keeps:
  "st_svg (fst (State_cycle ids k c d)) = st_svg c \<and>
   st_states (fst (State_cycle ids k c d)) = st_states c"
  by (induction k) (auto simp: State_visit_keeps split: prod.splits)

text \<open>
  One run of \<^verbatim>\<open>play\<close> is one visit of the cycle: the captured index, wrapped, is the
  position \<open>k mod length ids\<close> of tick \<open>k\<close>.
\<close>

lemma State_play_visit:
  assumes wired: "st_svg c = None \<longrightarrow> st_states c = []"
    and idx: "(if length ids \<le> index then 0 else index) = (if ids = [] then 0 else k mod length ids)"
  shows "State_play ids iv index c d s =
           Return (fst (State_visit ids k c d), snd (State_visit ids k c d),
             snd (setTimeout s
                    (StatePlay ids iv (Suc (if ids = [] then 0 else k mod length ids))) iv))"
proof (cases "ids = []")
  case True
  have "find (\<lambda>st. False) (st_states c) = None"
    by (simp add: find_None_iff)
  with True show ?thesis
    by (simp add: State_play_def State_visit_def at_def Let_def)
next
  case False
  let ?i = "k mod length ids"
  have i: "?i < length ids"
    using False by simp
  have i1: "(if length ids \<le> index then 0 else index) = ?i"
    using idx False by simp
  have pred: "(\<lambda>st. case at ids ?i of None \<Rightarrow> False
                       | Some sid \<Rightarrow> getAttribute d st ''data-state-id'' = Some (Str sid)) =
              (\<lambda>st. getAttribute d st ''data-state-id'' = Some (Str (ids ! ?i)))"
    using i by (simp add: at_def)
  show ?thesis
  proof (cases "find (\<lambda>st. getAttribute d st ''data-state-id'' = Some (Str (ids ! ?i))) (st_states c)")
    case None
    then show ?thesis
      using False i1 pred by (simp add: State_play_def State_visit_def Let_def)
  next
    case (Some st)
    then have "st_states c \<noteq> []"
      by auto
    then obtain svg where svg: "st_svg c = Some svg"
      using wired by auto
    show ?thesis
      using False i1 pred Some State_transitionTo_Return [OF svg, of d st]
      by (simp add: State_play_def State_visit_def Let_def)
  qed
qed

lemma wrap_index:
  "(if length ids \<le> Suc (if ids = [] then 0 else k mod length ids) then 0
    else Suc (if ids = [] then 0 else k mod length ids)) =
   (if ids = [] then 0 else Suc k mod length ids)"
proof (cases "ids = []")
  case True
  then show ?thesis by simp
next
  case False
  then have lt: "k mod length ids < length ids"
    by simp
  show ?thesis
  proof (cases "Suc (k mod length ids) = length ids")
    case True
    then show ?thesis
      using False by (simp add: mod_Suc)
  next
    case neq: False
    then have "\<not> length ids \<le> Suc (k mod length ids)"
      using lt by linarith
    then show ?thesis
      using False neq by (simp add: mod_Suc)
  qed
qed

lemma State_run_cycle:
  assumes wired: "st_svg c = None \<longrightarrow> st_states c = []" and "issued s"
  shows "\<exists>s'. State_run ids iv n c d s =
           Return (fst (State_cycle ids n c d), snd (State_cycle ids n c d), s') \<and>
         now s' = now s + n * iv \<and>
         timerHandles s' = timerHandles s + Suc n \<and>
         timers s' = timers s @
           [\<lparr>handle = timerHandles s + Suc n, due = now s + Suc n * iv, period = None,
             callback = StatePlay ids iv (Suc (if ids = [] then 0 else n mod length ids))\<rparr>]"
proof (induction n)
  case 0
  have "(if length ids \<le> 0 then 0 else 0) = (if ids = [] then 0 else 0 mod length ids)"
    by simp
  from State_play_visit [OF wired this, of iv d s]
  show ?case
    by (simp add: State_playSequence_def setTimeout_def Let_def)
next
  case (Suc n)
  let ?c = "fst (State_cycle ids n c d)" and ?d = "snd (State_cycle ids n c d)"
  let ?T = "\<lparr>handle = timerHandles s + Suc n, due = now s + Suc n * iv, period = None,
             callback = StatePlay ids iv (Suc (if ids = [] then 0 else n mod length ids))\<rparr>"
  from Suc obtain s' where run: "State_run ids iv n c d s = Return (?c, ?d, s')"
    and nw: "now s' = now s + n * iv" and th: "timerHandles s' = timerHandles s + Suc n"
    and tm: "timers s' = timers s @ [?T]"
    by blast
  have fresh: "\<forall>t \<in> set (timers s). handle t \<noteq> timerHandles s + Suc n"
    using assms(2) by (auto simp: issued_def list_all_iff)
  have found: "find (\<lambda>t. handle t = timerHandles s') (timers s') = Some ?T"
    unfolding tm th by (rule find_last_handle) (use fresh in simp_all)
  define s1 where "s1 = begin_timer ?T s'"
  have s1: "now s1 = now s + Suc n * iv" "timerHandles s1 = timerHandles s + Suc n"
    "timers s1 = timers s"
    using fresh by (simp_all add: s1_def begin_timer_def nw th tm filter_no_handle max_def)
  have wired': "st_svg ?c = None \<longrightarrow> st_states ?c = []"
    using wired State_cycle_keeps [of ids n c d] by simp
  have fire: "State_fire (timerHandles s') ?c ?d s' =
      State_play ids iv (Suc (if ids = [] then 0 else n mod length ids)) ?c ?d s1"
    by (simp add: State_fire_def found s1_def)
  have play: "State_play ids iv (Suc (if ids = [] then 0 else n mod length ids)) ?c ?d s1 =
      Return (fst (State_visit ids (Suc n) ?c ?d), snd (State_visit ids (Suc n) ?c ?d),
        snd (setTimeout s1
               (StatePlay ids iv (Suc (if ids = [] then 0 else Suc n mod length ids))) iv))"
    by (rule State_play_visit [OF wired' wrap_index])
  have cyc: "State_cycle ids (Suc n) c d = State_visit ids (Suc n) ?c ?d"
    by (simp split: prod.splits)
  define s2 where "s2 = snd (setTimeout s1
      (StatePlay ids iv (Suc (if ids = [] then 0 else Suc n mod length ids))) iv)"
  have s2: "now s2 = now s + Suc n * iv" "timerHandles s2 = timerHandles s + Suc (Suc n)"
    "timers s2 = timers s @
       [\<lparr>handle = timerHandles s + Suc (Suc n), due = now s + Suc (Suc n) * iv, period = None,
         callback = StatePlay ids iv (Suc (if ids = [] then 0 else Suc n mod length ids))\<rparr>]"
    by (simp_all add: s2_def setTimeout_def Let_def s1)
  have "State_run ids iv (Suc n) c d s = State_fire (timerHandles s') ?c ?d s'"
    using run by simp
  also have "\<dots> = Return (fst (State_visit ids (Suc n) ?c ?d),
      snd (State_visit ids (Suc n) ?c ?d), s2)"
    unfolding fire play s2_def ..
  finally have "State_run ids iv (Suc n) c d s =
      Return (fst (State_cycle ids (Suc n) c d), snd (State_cycle ids (Suc n) c d), s2)"
    by (simp only: cyc)
  then show ?case
    using s2 by blast
qed

lemma State_new_wired:
  "st_svg (fst (State_new i d)) = None \<longrightarrow> st_states (fst (State_new i d)) = []"
  by (simp add: State_new_def State_init_def Let_def split: option.splits)


text \<open>
  C3.  Let the controller be as its constructor leaves it (without a container it has no
  states).  For every list \<open>stateIds\<close>, every \<open>interval\<close> and every \<open>n\<close>, the call
  \<^verbatim>\<open>playSequence(stateIds, interval)\<close> followed by \<open>n\<close> timeouts returns: nothing throws
  and the loop has not ended.  Controller and document are then those of the cycle of
  the specification after ticks \<open>0, \<dots>, n\<close>, where tick \<open>k\<close> takes entry
  \<open>k mod length stateIds\<close> (stepping in order and wrapping after the last entry),
  transitions to the first state element with that \<^verbatim>\<open>data-state-id\<close> and changes nothing
  when there is none.  Tick \<open>n\<close> has come \<open>n * interval\<close> after the call, and the next
  tick is pending as a timeout due \<open>interval\<close> later, which carries the index after the
  entry just taken.
\<close>

theorem State_playSequence_cycles:
  assumes "st_svg c = None \<longrightarrow> st_states c = []" and "issued s"
  shows "\<exists>c' d' s'.
           State_run stateIds interval n c d s = Return (c', d', s') \<and>
           (c', d') = State_cycle stateIds n c d \<and>
           now s' = now s + n * interval \<and>
           timers s' = timers s @
             [\<lparr>handle = timerHandles s + Suc n, due = now s + Suc n * interval, period = None,
               callback = StatePlay stateIds interval
                 (Suc (if stateIds = [] then 0 else n mod length stateIds))\<rparr>]"
  using State_run_cycle [OF assms, of stateIds interval n d] by auto

lemma state_page_cycle:
  "State_getCurrentState (fst (State_cycle [''cooling'', ''nowhere''] 3
      (fst (State_new ''states'' state_page)) (snd (State_new ''states'' state_page)))) = Some 12"
  "length (dispatched (snd (State_cycle [''cooling'', ''nowhere''] 3
      (fst (State_new ''states'' state_page)) (snd (State_new ''states'' state_page))))) = 2"
  "classList_contains (snd (State_cycle [''cooling'', ''nowhere''] 3
      (fst (State_new ''states'' state_page)) (snd (State_new ''states'' state_page)))) 12 ''active''"
  "\<not> classList_contains (snd (State_cycle [''cooling'', ''nowhere''] 3
      (fst (State_new ''states'' state_page)) (snd (State_new ''states'' state_page)))) 11 ''active''"
  unfolding state_page_new fst_conv snd_conv
  by (simp_all add: numeral_3_eq_3 mod_Suc State_visit_def State_transitionTo_def Let_def
      State_getCurrentState_def getAttribute_def classList_contains_def classList_add_def
      classList_remove_def dispatchEvent_def state_page_def blank_def new_element_def)

theorem State_playSequence_cycles_witness:
  "st_svg (fst (State_new ''states'' state_page)) = Some 10 \<and> issued idle \<and>
   (\<exists>c' d' s'.
      State_run [''cooling'', ''nowhere''] 1500 3 (fst (State_new ''states'' state_page))
        (snd (State_new ''states'' state_page)) idle = Return (c', d', s') \<and>
      State_getCurrentState c' = Some 12 \<and> length (dispatched d') = 2 \<and>
      classList_contains d' 12 ''active'' \<and> \<not> classList_contains d' 11 ''active'' \<and>
      now s' = 4500 \<and> length (timers s') = 1)"
proof -
  let ?c = "fst (State_new ''states'' state_page)"
  let ?d = "snd (State_new ''states'' state_page)"
  have svg: "st_svg ?c = Some 10"
    by (simp add: state_page_new)
  then have w: "st_svg ?c = None \<longrightarrow> st_states ?c = []"
    by simp
  have i: "issued idle"
    by (simp add: issued_def idle_def)
  obtain c' d' s' where
    r: "State_run [''cooling'', ''nowhere''] 1500 3 ?c ?d idle = Return (c', d', s')"
    and cd: "(c', d') = State_cycle [''cooling'', ''nowhere''] 3 ?c ?d"
    and nw: "now s' = now idle + 3 * 1500"
    and tm: "timers s' = timers idle @
      [\<lparr>handle = timerHandles idle + Suc 3, due = now idle + Suc 3 * 1500, period = None,
        callback = StatePlay [''cooling'', ''nowhere''] 1500
          (Suc (if [''cooling'', ''nowhere''] = [] then 0
                else 3 mod length [''cooling'', ''nowhere'']))\<rparr>]"
    using State_playSequence_cycles [OF w i, of "[''cooling'', ''nowhere'']" 1500 3 ?d] by blast
  have c': "c' = fst (State_cycle [''cooling'', ''nowhere''] 3 ?c ?d)"
    and d': "d' = snd (State_cycle [''cooling'', ''nowhere''] 3 ?c ?d)"
    using cd by (simp_all add: prod_eq_iff)
  have "State_getCurrentState c' = Some 12" "length (dispatched d') = 2"
    "classList_contains d' 12 ''active''" "\<not> classList_contains d' 11 ''active''"
    unfolding c' d' by (rule state_page_cycle)+
  moreover have "now s' = 4500" "length (timers s') = 1"
    using nw tm by (simp_all add: idle_def)
  ultimately show ?thesis
    using svg i r by blast
qed

section \<open>RefrigerationCycleController: one frame loop at a time\<close>

lemma single_frame_iff:
  "(case fs of [(h, Animate offset)] \<Rightarrow> P h offset | _ \<Rightarrow> False) \<longleftrightarrow>
     (\<exists>h offset. fs = [(h, Animate offset)] \<and> P h offset)"
proof (cases fs)
  case Nil
  then show ?thesis by simp
next
  case (Cons f gs)
  obtain h cb where f: "f = (h, cb)"
    by (cases f)
  show ?thesis
    unfolding Cons f by (cases cb; cases gs) simp_all
qed

lemma Refrigeration_inv_iff:
  "Refrigeration_inv (c, d, s) \<longleftrightarrow>
     (if rc_isAnimating c
      then rc_flowPath c \<noteq> None \<and> rc_animationFrame c = Some (frameHandles s) \<and>
           (\<exists>offset. frames s = [(frameHandles s, Animate offset)] \<and>
              even offset \<and> offset < 100)
      else frames s = []) \<and>
     (case rc_animationFrame c of
        Some h \<Rightarrow> 0 < h \<and> h \<le> frameHandles s
      | None \<Rightarrow> True)"
  unfolding Refrigeration_inv_def prod.case single_frame_iff by auto

lemma Refrigeration_new_inv:
  assumes "frames s = []"
  shows "Refrigeration_inv (Refrigeration_new i d, d, s)"
  using assms
  by (simp add: Refrigeration_inv_iff Refrigeration_new_def Refrigeration_init_def
      split: option.splits)

lemma Refrigeration_animate_inv:
  assumes "frames s = []" and "even offset"
    and "case rc_animationFrame c of Some h \<Rightarrow> 0 < h \<and> h \<le> frameHandles s | None \<Rightarrow> True"
  shows "Refrigeration_inv (Refrigeration_animate offset c d s)"
proof (cases "if rc_isAnimating c then rc_flowPath c else None")
  case None
  then show ?thesis
    using assms by (simp add: Refrigeration_inv_iff Refrigeration_animate_def)
next
  case (Some p)
  then have run: "rc_isAnimating c" and p: "rc_flowPath c = Some p"
    by (simp_all split: if_splits)
  have "even ((offset + 2) mod 100)"
    using assms(2) by presburger
  then show ?thesis
    using assms(1) Some run p
    by (simp add: Refrigeration_inv_iff Refrigeration_animate_def requestAnimationFrame_def
        Let_def)
qed

lemma Refrigeration_start_inv:
  assumes "Refrigeration_inv (c, d, s)"
  shows "Refrigeration_inv (Refrigeration_startAnimation c d s)"
proof (cases "rc_isAnimating c")
  case True
  then show ?thesis
    using assms by (simp add: Refrigeration_startAnimation_def)
next
  case False
  then have "frames s = []"
    and "case rc_animationFrame c of Some h \<Rightarrow> 0 < h \<and> h \<le> frameHandles s | None \<Rightarrow> True"
    using assms by (simp_all add: Refrigeration_inv_iff)
  then have "Refrigeration_inv (Refrigeration_animate 0 (c\<lparr>rc_isAnimating := True\<rparr>) d s)"
    by (intro Refrigeration_animate_inv) simp_all
  then show ?thesis
    using False by (simp add: Refrigeration_startAnimation_def)
qed

lemma Refrigeration_stop_inv:
  assumes "Refrigeration_inv (c, d, s)"
  shows "Refrigeration_inv (Refrigeration_stopAnimation c d s)"
  using assms
  by (auto simp: Refrigeration_inv_iff Refrigeration_stopAnimation_def cancelAnimationFrame_def
      Let_def split: option.splits if_splits)

lemma Refrigeration_frame_inv:
  assumes "Refrigeration_inv (c, d, s)"
  shows "Refrigeration_inv (Refrigeration_frame h c d s)"
proof (cases "find (\<lambda>f. fst f = h) (frames s)")
  case None
  then show ?thesis
    using assms by (simp add: Refrigeration_frame_def)
next
  case (Some f)
  then have ne: "frames s \<noteq> []"
    by auto
  then have run: "rc_isAnimating c"
    using assms by (auto simp: Refrigeration_inv_iff split: if_splits)
  then obtain offset where fr: "frames s = [(frameHandles s, Animate offset)]"
    and ev: "even offset" and held: "rc_animationFrame c = Some (frameHandles s)"
    using assms by (auto simp: Refrigeration_inv_iff)
  have f: "f = (h, Animate offset)" and h: "h = frameHandles s"
    using Some fr by (auto split: if_splits)
  have pos: "0 < frameHandles s"
    using assms held by (simp add: Refrigeration_inv_iff)
  have "Refrigeration_inv (Refrigeration_animate offset c d (cancelAnimationFrame s h))"
    by (rule Refrigeration_animate_inv)
      (use fr h ev held pos in \<open>simp_all add: cancelAnimationFrame_def\<close>)
  then show ?thesis
    using Some f by (simp add: Refrigeration_frame_def)
qed

lemma Refrigeration_reach_inv:
  assumes "Refrigeration_reach x"
  shows "Refrigeration_inv x"
  using assms
proof (induction rule: Refrigeration_reach.induct)
  case (construct s svgElementId d)
  then show ?case by (rule Refrigeration_new_inv)
next
  case (start c d s)
  then show ?case by (simp add: Refrigeration_start_inv)
next
  case (stop c d s)
  then show ?case by (simp add: Refrigeration_stop_inv)
next
  case (toggle c d s)
  then show ?case
    by (simp add: Refrigeration_toggleAnimation_def Refrigeration_start_inv
        Refrigeration_stop_inv)
next
  case (frame c d s h)
  then show ?case by (simp add: Refrigeration_frame_inv)
qed

text \<open>
  C7.  In every state the controller reaches: \<^verbatim>\<open>startAnimation()\<close> while the animation
  is running changes nothing; at most one frame callback is pending, before and after
  \<^verbatim>\<open>startAnimation()\<close>; and \<^verbatim>\<open>stopAnimation()\<close> returns with the running flag cleared
  and with no frame callback pending, the document as it was.
\<close>

theorem Refrigeration_start_stop:
  assumes "Refrigeration_reach x"
  shows "case x of
           (c, d, s) \<Rightarrow>
             (rc_isAnimating c \<longrightarrow> Refrigeration_startAnimation c d s = (c, d, s)) \<and>
             length (frames s) \<le> 1 \<and>
             (case Refrigeration_startAnimation c d s of
                (c1, d1, s1) \<Rightarrow> length (frames s1) \<le> 1) \<and>
             (case Refrigeration_stopAnimation c d s of
                (c', d', s') \<Rightarrow> \<not> rc_isAnimating c' \<and> frames s' = [] \<and> d' = d)"
proof -
  obtain c d s where x: "x = (c, d, s)"
    by (cases x)
  have inv: "Refrigeration_inv (c, d, s)"
    using assms x by (simp add: Refrigeration_reach_inv)
  have one: "length (frames s) \<le> 1"
    using inv by (auto simp: Refrigeration_inv_iff split: if_splits)
  have "Refrigeration_inv (Refrigeration_startAnimation c d s)"
    by (rule Refrigeration_start_inv [OF inv])
  then have started: "case Refrigeration_startAnimation c d s of
      (c1, d1, s1) \<Rightarrow> length (frames s1) \<le> 1"
    by (auto simp: Refrigeration_inv_iff split: if_splits prod.splits)
  have "Refrigeration_inv (Refrigeration_stopAnimation c d s)"
    by (rule Refrigeration_stop_inv [OF inv])
  moreover have "\<not> rc_isAnimating (fst (Refrigeration_stopAnimation c d s))"
    "fst (snd (Refrigeration_stopAnimation c d s)) = d"
    by (simp_all add: Refrigeration_stopAnimation_def Let_def split: option.splits)
  ultimately have stopped: "case Refrigeration_stopAnimation c d s of
      (c', d', s') \<Rightarrow> \<not> rc_isAnimating c' \<and> frames s' = [] \<and> d' = d"
    by (auto simp: Refrigeration_inv_iff split: prod.splits)
  show ?thesis
    using one started stopped by (simp add: x Refrigeration_startAnimation_def)
qed


text \<open>The controller over \<open>fridge_page\<close>, started.\<close>

lemma fridge_new:
  "Refrigeration_new ''fridge'' fridge_page =
     \<lparr>rc_svg = Some 10, rc_isAnimating = False, rc_animationFrame = None,
      rc_flowPath = Some 11, rc_compressor = None, rc_condenser = None,
      rc_expansionValve = None, rc_evaporator = None\<rparr>"
  by (simp add: Refrigeration_new_def Refrigeration_init_def getElementById_def
      querySelector_def fridge_page_def blank_def new_element_def)

lemma fridge_started:
  "Refrigeration_startAnimation (Refrigeration_new ''fridge'' fridge_page) fridge_page idle =
     (\<lparr>rc_svg = Some 10, rc_isAnimating = True, rc_animationFrame = Some (Suc 0),
        rc_flowPath = Some 11, rc_compressor = None, rc_condenser = None,
        rc_expansionValve = None, rc_evaporator = None\<rparr>,
      set_style fridge_page 11 ''strokeDashoffset'' (Num 2),
      idle\<lparr>frameHandles := Suc 0, frames := [(Suc 0, Animate 2)]\<rparr>)"
  unfolding fridge_new
  by (simp add: Refrigeration_startAnimation_def Refrigeration_animate_def
      requestAnimationFrame_def idle_def Let_def numeral_2_eq_2)

theorem Refrigeration_start_stop_witness:
  "Refrigeration_reach
     (Refrigeration_startAnimation (Refrigeration_new ''fridge'' fridge_page) fridge_page idle) \<and>
   (case Refrigeration_startAnimation (Refrigeration_new ''fridge'' fridge_page) fridge_page idle of
      (c, d, s) \<Rightarrow>
        rc_isAnimating c \<and> Refrigeration_startAnimation c d s = (c, d, s) \<and>
        length (frames s) = 1 \<and>
        (case Refrigeration_stopAnimation c d s of
           (c', d', s') \<Rightarrow> \<not> rc_isAnimating c' \<and> frames s' = [] \<and> d' = d))"
proof -
  let ?x = "Refrigeration_startAnimation (Refrigeration_new ''fridge'' fridge_page) fridge_page idle"
  have "frames idle = []"
    by (simp add: idle_def)
  then have r: "Refrigeration_reach ?x"
    by (intro Refrigeration_reach.start Refrigeration_reach.construct)
  show ?thesis
    using r Refrigeration_start_stop [OF r]
    by (simp add: fridge_started)
qed

section \<open>RefrigerationCycleController: the dash offset\<close>

lemma dash_offset_bounds: "even (dash_offset n) \<and> dash_offset n < 100"
proof (induction n)
  case 0
  show ?case by simp
next
  case (Suc n)
  then have "even ((dash_offset n + 2) mod 100)"
    by presburger
  then show ?case by simp
qed

lemma Refrigeration_frames_offset:
  assumes "\<not> rc_isAnimating c" and "rc_flowPath c = Some p" and "frames s = []"
  shows "\<exists>c' d' s'.
           Refrigeration_frames n (Refrigeration_startAnimation c d s) = (c', d', s') \<and>
           rc_isAnimating c' \<and> rc_flowPath c' = Some p \<and>
           rc_animationFrame c' = Some (frameHandles s + Suc n) \<and>
           frameHandles s' = frameHandles s + Suc n \<and>
           frames s' = [(frameHandles s + Suc n, Animate (dash_offset (Suc n)))] \<and>
           get_style d' p ''strokeDashoffset'' = Num (dash_offset (Suc n))"
proof (induction n)
  case 0
  show ?case
    using assms
    by (simp add: Refrigeration_startAnimation_def Refrigeration_animate_def
        requestAnimationFrame_def get_style_def set_style_def Let_def)
next
  case (Suc n)
  then obtain c' d' s' where
    run: "Refrigeration_frames n (Refrigeration_startAnimation c d s) = (c', d', s')"
    and c': "rc_isAnimating c'" "rc_flowPath c' = Some p"
      "rc_animationFrame c' = Some (frameHandles s + Suc n)"
    and s': "frameHandles s' = frameHandles s + Suc n"
      "frames s' = [(frameHandles s + Suc n, Animate (dash_offset (Suc n)))]"
    by blast
  have "Refrigeration_frames (Suc n) (Refrigeration_startAnimation c d s) =
      Refrigeration_frame (frameHandles s + Suc n) c' d' s'"
    using run c' by simp
  also have "\<dots> = Refrigeration_animate (dash_offset (Suc n)) c' d'
      (cancelAnimationFrame s' (frameHandles s + Suc n))"
    using s' by (simp add: Refrigeration_frame_def)
  finally show ?case
    using c' s'
    by (simp add: Refrigeration_animate_def requestAnimationFrame_def cancelAnimationFrame_def
        get_style_def set_style_def Let_def del: dash_offset.simps)
      (simp add: add.commute)
qed

text \<open>
  C9.  Let \<^verbatim>\<open>startAnimation()\<close> start the loop (the controller was not running, has a
  flow path, and no frame callback is pending, as in every reachable state that is not
  running).  After \<^verbatim>\<open>startAnimation()\<close> and \<open>n\<close> further frames, the value written last to
  the flow path's stroke-dash-offset is the counter after \<open>n + 1\<close> advances by 2 modulo
  100 from 0; it is even and below 100; and the pending frame callback carries that
  counter for the next advance.
\<close>

theorem Refrigeration_dash_offset:
  assumes "\<not> rc_isAnimating c" and "rc_flowPath c = Some p" and "frames s = []"
  shows "case Refrigeration_frames n (Refrigeration_startAnimation c d s) of
           (c', d', s') \<Rightarrow>
             get_style d' p ''strokeDashoffset'' = Num (dash_offset (Suc n)) \<and>
             dash_offset (Suc n) = (dash_offset n + 2) mod 100 \<and>
             dash_offset (Suc n) = (2 * Suc n) mod 100 \<and>
             even (dash_offset (Suc n)) \<and> dash_offset (Suc n) < 100 \<and>
             frames s' = [(frameHandles s + Suc n, Animate (dash_offset (Suc n)))]"
proof -
  have closed: "dash_offset k = (2 * k) mod 100" for k
  proof (induction k)
    case 0
    show ?case by simp
  next
    case (Suc k)
    then show ?case
      by (simp add: mod_simps)
  qed
  show ?thesis
    using Refrigeration_frames_offset [OF assms, of n d] dash_offset_bounds [of "Suc n"]
      closed [of "Suc n"]
    by (auto simp del: dash_offset.simps) simp
qed

theorem Refrigeration_dash_offset_witness:
  "\<not> rc_isAnimating (Refrigeration_new ''fridge'' fridge_page) \<and>
   rc_flowPath (Refrigeration_new ''fridge'' fridge_page) = Some 11 \<and>
   frames idle = [] \<and>
   (case Refrigeration_frames 49
           (Refrigeration_startAnimation (Refrigeration_new ''fridge'' fridge_page)
              fridge_page idle) of
      (c', d', s') \<Rightarrow>
        get_style d' 11 ''strokeDashoffset'' = Num 0 \<and> frames s' = [(50, Animate 0)])"
proof -
  let ?c = "Refrigeration_new ''fridge'' fridge_page"
  have h1: "\<not> rc_isAnimating ?c" and h2: "rc_flowPath ?c = Some 11"
    by (simp_all add: fridge_new)
  have h3: "frames idle = []" and fh: "frameHandles idle = 0"
    by (simp_all add: idle_def)
  from Refrigeration_dash_offset [OF h1 h2 h3, of 49 fridge_page]
  have "case Refrigeration_frames 49 (Refrigeration_startAnimation ?c fridge_page idle) of
      (c', d', s') \<Rightarrow>
        get_style d' 11 ''strokeDashoffset'' = Num 0 \<and> frames s' = [(50, Animate 0)]"
    by (auto simp: fh simp del: dash_offset.simps)
  then show ?thesis
    using h1 h2 h3 by simp
qed

section \<open>InteractiveDiagramController: clicks as delivered\<close>








text \<open>
  The constructor establishes \<open>registered\<close> on a page that has no click listener yet
  and whose element lists have no repetition.
\<close>

lemma forEach_listeners:
  "listeners (forEach xs
      (\<lambda>node d.
          addEventListener
            (addEventListener
               (addEventListener d node ''click'' (InteractiveClick node))
               node ''mouseenter'' (InteractiveEnter node))
            node ''mouseleave'' (InteractiveLeave node)) d) =
   listeners d @
     concat (map (\<lambda>n. [(n, ''click'', InteractiveClick n), (n, ''mouseenter'', InteractiveEnter n),
                        (n, ''mouseleave'', InteractiveLeave n)]) xs)"
  by (induction xs arbitrary: d) (simp_all add: addEventListener_def)

lemma filter_click_registered:
  "filter (\<lambda>x. fst (snd x) = ''click'')
     (concat (map (\<lambda>n. [(n, ''click'', InteractiveClick n), (n, ''mouseenter'', InteractiveEnter n),
                        (n, ''mouseleave'', InteractiveLeave n)]) xs)) =
   map (\<lambda>n. (n, ''click'', InteractiveClick n)) xs"
  by (induction xs) simp_all

lemma Interactive_new_registered:
  assumes new: "Interactive_new i opts d0 = Return (c, d)"
    and none: "filter (\<lambda>x. fst (snd x) = ''click'') (listeners d0) = []"
    and dist: "\<forall>e. distinct (descendants d0 e)"
  shows "registered c d"
proof (cases "getElementById d0 i")
  case None
  then show ?thesis
    using new none by (auto simp: Interactive_new_missing registered_def)
next
  case (Some svg)
  define c0 where "c0 = \<lparr>ic_svg = Some svg, ic_nodes = [], ic_connections = [],
      ic_selectedNode = None, ic_tooltip = None, ic_options = merge_options opts\<rparr>"
  obtain c1 d1 where tip: "(if showTooltip (ic_options c0) then Interactive_createTooltip c0 d0
      else Return (c0, d0)) = Return (c1, d1)"
    and l1: "listeners d1 = listeners d0"
    and n1: "distinct (querySelectorAll d1 svg (ByClass ''interactive-node''))"
  proof (cases "showTooltip (ic_options c0)")
    case False
    show ?thesis
      by (rule that [of c0 d0]) (use False dist in \<open>simp_all add: querySelectorAll_def\<close>)
  next
    case True
    let ?g = "created d0"
    define d1 where "d1 = snd (state_of (Interactive_createTooltip c0 d0))"
    have r: "Interactive_createTooltip c0 d0 = Return (c0\<lparr>ic_tooltip := Some ?g\<rparr>, d1)"
      by (simp add: d1_def state_of_def Interactive_createTooltip_def Let_def c0_def)
    have l: "listeners d1 = listeners d0"
      by (simp add: d1_def state_of_def Interactive_createTooltip_def Let_def c0_def
          setAttribute_def)
    have tree: "descendants d1 svg =
        (if svg = ?g then [?g + 1, ?g + 2] else descendants d0 svg) @ [?g, ?g + 1, ?g + 2]"
      by (simp add: d1_def state_of_def Interactive_createTooltip_def Let_def c0_def
          setAttribute_def)
    have own: "\<not> matches d1 (ByClass ''interactive-node'') e"
      if "e = ?g \<or> e = ?g + 1 \<or> e = ?g + 2" for e
      using that
      by (auto simp: d1_def state_of_def Interactive_createTooltip_def Let_def c0_def
          setAttribute_def class_tokens_group new_element_def)
    have "distinct (if svg = ?g then [?g + 1, ?g + 2] else descendants d0 svg)"
      using dist by simp
    then have "distinct (querySelectorAll d1 svg (ByClass ''interactive-node''))"
      unfolding querySelectorAll_def tree using own by (simp del: matches.simps)
    then show ?thesis
      by (intro that [of "c0\<lparr>ic_tooltip := Some ?g\<rparr>" d1]) (use True r l in simp_all)
  qed
  have svg0: "ic_svg c0 = Some svg"
    by (simp add: c0_def)
  have "Interactive_init c0 d0 = Return (c, d)"
    using new Some by (simp add: Interactive_new_def c0_def)
  then have cd: "c = c1\<lparr>ic_nodes := querySelectorAll d1 svg (ByClass ''interactive-node''),
        ic_connections := querySelectorAll d1 svg (ByClass ''interactive-connection'')\<rparr>"
    and d: "d = forEach (querySelectorAll d1 svg (ByClass ''interactive-node''))
        (\<lambda>node d.
            addEventListener
              (addEventListener
                 (addEventListener d node ''click'' (InteractiveClick node))
                 node ''mouseenter'' (InteractiveEnter node))
              node ''mouseleave'' (InteractiveLeave node)) d1"
    using tip svg0 by (simp_all add: Interactive_init_def Let_def)
  show ?thesis
    using n1 none l1
    by (simp add: registered_def cd d forEach_listeners filter_click_registered)
qed




text \<open>
  Where a node lies inside another, the click on the inner node also runs the listener of
  the outer one, which ends up selected: over \<open>nested_page\<close>, a click on node 12 leaves
  node 11 as the selection.
\<close>

lemma Interactive_click_nested:
  "click_listeners (snd nested_new) 12 = [InteractiveClick 12, InteractiveClick 11]"
  "case Interactive_click (fst nested_new) (snd nested_new) 12 of
     (es, c, d) \<Rightarrow>
       es = [] \<and> Interactive_getSelectedNode c = Some 11 \<and> selected_nodes c d = [11]"
  by (simp_all add: nested_new_def nested_page_def click_listeners_def propagation_path_def
      Interactive_click_def page_defs hover_defs selected_nodes_def Interactive_getSelectedNode_def
      forEach_def)


end
